theory Spec2Isabelle
  imports Complex_Main "HOL-Library.Sublist"
begin

section \<open>Strings\<close>

text \<open>
  Page locations and page text are JavaScript strings. A location returned by
  \<^verbatim>\<open>page.url()\<close> is a serialised URL, hence ASCII; strings are modelled as
  \<^typ>\<open>string\<close> and \<^verbatim>\<open>toLowerCase\<close> as the mapping of the letters A..Z to a..z.
\<close>

type_synonym selector = string

definition toLowerChar :: "char \<Rightarrow> char" where
  "toLowerChar c =
     (let n = (of_char c :: nat) in if 65 \<le> n \<and> n \<le> 90 then char_of (n + 32) else c)"

definition toLowerCase :: "string \<Rightarrow> string" where
  "toLowerCase s = map toLowerChar s"

text \<open>\<^verbatim>\<open>s.startsWith(p)\<close> and \<^verbatim>\<open>s.includes(p)\<close>, by a left-to-right scan.\<close>

fun startsWith :: "string \<Rightarrow> string \<Rightarrow> bool" where
  "startsWith s [] = True"
| "startsWith [] (p # ps) = False"
| "startsWith (c # cs) (p # ps) = (c = p \<and> startsWith cs ps)"

fun includes_js :: "string \<Rightarrow> string \<Rightarrow> bool" where
  "includes_js [] p = (p = [])"
| "includes_js (c # cs) p = (startsWith (c # cs) p \<or> includes_js cs p)"

section \<open>utils/selectors.js: the selector tables\<close>

definition event_buyButton :: "selector list" where
  \<open>event_buyButton =
     [''button:has-text("Beli Tiket")'',
      ''a:has-text("Beli Tiket")'',
      ''[class*="buy"]:has-text("Beli")'',
      ''.btn-buy-ticket'',
      ''button:has-text("Buy Ticket")'',
      ''[data-action="buy-ticket"]'']\<close>

definition waitingRoom_urlPatterns :: "string list" where
  "waitingRoom_urlPatterns = [''waiting-room'', ''queue'', ''antrean'', ''antrian'']"

definition checkout_nextButton :: "selector list" where
  \<open>checkout_nextButton =
     [''button:has-text("Lanjutkan")'',
      ''button:has-text("Selanjutnya")'',
      ''button:has-text("Next")'',
      ''button:has-text("Continue")'',
      ''.btn-next'',
      ''.btn-continue'',
      ''[class*="next"]'',
      ''button[type="submit"]'']\<close>

definition checkout_payButton :: "selector list" where
  \<open>checkout_payButton =
     [''button:has-text("Bayar")'',
      ''button:has-text("Bayar Sekarang")'',
      ''button:has-text("Pay")'',
      ''button:has-text("Pay Now")'',
      ''.btn-pay'',
      ''[class*="pay"]'']\<close>

section \<open>The browser driver\<close>

text \<open>
  The page is an external collaborator. A value of type \<open>'w\<close> is the state of the
  browsing session (the page, its clock, whatever the site does next); \<open>'h\<close> is the type
  of element handles. Every awaited driver call takes the session state and returns its
  result together with the next state: the page may change while a call is pending. A call
  that rejects returns \<open>Inl\<close> of the error. \<^verbatim>\<open>page.url()\<close> is a synchronous getter.
\<close>

datatype error = Error string

type_synonym ms = rat

datatype locator = Locator selector | First locator | Last locator | Nth locator nat

datatype 'h target = Handle 'h | Loc locator

record box =
  box_x :: rat
  box_y :: rat
  box_width :: rat
  box_height :: rat

text \<open>
  The document as a script evaluated in the page sees it: text nodes, and elements with
  their tag name, the \<^verbatim>\<open>display\<close> and \<^verbatim>\<open>visibility\<close> of their computed style, and
  their children. Nodes of other kinds carry no text for a walker that shows text nodes.
\<close>

datatype node = Text string | Element string string string "node list" | Other

text \<open>
  A template literal, as the list of its pieces; \<open>Now\<close> is the time stamp
  \<^verbatim>\<open>new Date().toISOString()\<close>.
\<close>

datatype part = S string | N nat | R rat | B bool | Now

datatype level = Info | Success | Warn | Err | War | Queue | Debug

text \<open>What the engine did to its collaborators, in order.\<close>

datatype 'h action =
    GetUrl
  | WaitForTimeout ms
  | Query selector
  | QueryAll selector
  | QueryIn 'h selector
  | WaitForSelector selector ms string
  | IsVisible "'h target" "ms option"
  | IsDisabled "'h target"
  | IsChecked "'h target"
  | Click "'h target" "ms option"
  | PageClick selector
  | MouseClick rat rat
  | BoundingBox "'h target"
  | TextContent "'h target"
  | GetAttribute "'h target" string
  | InputValue "'h target"
  | Fill "'h target" string
  | TypeText "'h target" string ms
  | Count locator
  | All locator
  | Evaluate string
  | Goto string
  | Reload
  | ReadDocument
  | WriteFile string "part list"
  | Log level "part list"

record ('w, 'h) driver =
  pw_url :: "'w \<Rightarrow> string"
  pw_waitForTimeout :: "ms \<Rightarrow> 'w \<Rightarrow> (error + unit) \<times> 'w"
  pw_query :: "selector \<Rightarrow> 'w \<Rightarrow> (error + 'h option) \<times> 'w"
  pw_queryAll :: "selector \<Rightarrow> 'w \<Rightarrow> (error + 'h list) \<times> 'w"
  pw_queryIn :: "'h \<Rightarrow> selector \<Rightarrow> 'w \<Rightarrow> (error + 'h option) \<times> 'w"
  pw_waitForSelector :: "selector \<Rightarrow> ms \<Rightarrow> string \<Rightarrow> 'w \<Rightarrow> (error + 'h option) \<times> 'w"
  pw_isVisible :: "'h target \<Rightarrow> ms option \<Rightarrow> 'w \<Rightarrow> (error + bool) \<times> 'w"
  pw_isDisabled :: "'h target \<Rightarrow> 'w \<Rightarrow> (error + bool) \<times> 'w"
  pw_isChecked :: "'h target \<Rightarrow> 'w \<Rightarrow> (error + bool) \<times> 'w"
  pw_click :: "'h target \<Rightarrow> ms option \<Rightarrow> 'w \<Rightarrow> (error + unit) \<times> 'w"
  pw_pageClick :: "selector \<Rightarrow> 'w \<Rightarrow> (error + unit) \<times> 'w"
  pw_mouseClick :: "rat \<Rightarrow> rat \<Rightarrow> 'w \<Rightarrow> (error + unit) \<times> 'w"
  pw_boundingBox :: "'h target \<Rightarrow> 'w \<Rightarrow> (error + box option) \<times> 'w"
  pw_textContent :: "'h target \<Rightarrow> 'w \<Rightarrow> (error + string option) \<times> 'w"
  pw_getAttribute :: "'h target \<Rightarrow> string \<Rightarrow> 'w \<Rightarrow> (error + string option) \<times> 'w"
  pw_inputValue :: "'h target \<Rightarrow> 'w \<Rightarrow> (error + string) \<times> 'w"
  pw_fill :: "'h target \<Rightarrow> string \<Rightarrow> 'w \<Rightarrow> (error + unit) \<times> 'w"
  pw_typeText :: "'h target \<Rightarrow> string \<Rightarrow> ms \<Rightarrow> 'w \<Rightarrow> (error + unit) \<times> 'w"
  pw_count :: "locator \<Rightarrow> 'w \<Rightarrow> (error + nat) \<times> 'w"
  pw_allOf :: "locator \<Rightarrow> 'w \<Rightarrow> (error + nat) \<times> 'w"
  pw_evaluate :: "string \<Rightarrow> 'w \<Rightarrow> (error + bool) \<times> 'w"
  pw_document :: "'w \<Rightarrow> (error + node) \<times> 'w"
  fs_writeFileSync :: "string \<Rightarrow> part list \<Rightarrow> 'w \<Rightarrow> (error + unit) \<times> 'w"

text \<open>
  A run is the session state together with the actions taken so far. \<open>call a f\<close> performs
  the driver call \<open>f\<close> and records it as the action \<open>a\<close>; \<open>logger\<close> records a message.
\<close>

type_synonym ('w, 'h) run = "'w \<times> 'h action list"

definition call :: "'h action \<Rightarrow> ('w \<Rightarrow> 'r \<times> 'w) \<Rightarrow> ('w, 'h) run \<Rightarrow> 'r \<times> ('w, 'h) run" where
  "call a f s = (case f (fst s) of (r, w') \<Rightarrow> (r, (w', snd s @ [a])))"

definition logger :: "level \<Rightarrow> part list \<Rightarrow> ('w, 'h) run \<Rightarrow> ('w, 'h) run" where
  "logger lvl msg s = (fst s, snd s @ [Log lvl msg])"

text \<open>
  \<open>andThen r f\<close>: an awaited call whose rejection is not handled where it is made; the
  rejection is passed on, a value goes to the rest \<open>f\<close> of the block.
  \<open>isVisibleOrFalse\<close> is the probe \<^verbatim>\<open>await x.isVisible({ timeout }).catch(() => false)\<close>.
\<close>

definition andThen ::
  "(error + 'a) \<times> 's \<Rightarrow> ('a \<Rightarrow> 's \<Rightarrow> (error + 'b) \<times> 's) \<Rightarrow> (error + 'b) \<times> 's" where
  "andThen r f = (case r of (Inl e, s) \<Rightarrow> (Inl e, s) | (Inr a, s) \<Rightarrow> f a s)"

definition isVisibleOrFalse ::
  "('w, 'h) driver \<Rightarrow> 'h target \<Rightarrow> ms \<Rightarrow> ('w, 'h) run \<Rightarrow> bool \<times> ('w, 'h) run" where
  "isVisibleOrFalse d x timeout s =
     (case call (IsVisible x (Some timeout)) (pw_isVisible d x (Some timeout)) s of
        (Inl e, s') \<Rightarrow> (False, s')
      | (Inr visible, s') \<Rightarrow> (visible, s'))"

definition message :: "error \<Rightarrow> string" where
  "message e = (case e of Error m \<Rightarrow> m)"

section \<open>utils/selectors.js: findElement and elementExists\<close>

text \<open>
  The second argument is a selector or an array of selectors; the third an options object
  whose two properties may be absent (an omitted argument is the object with both absent).
\<close>

datatype selectorArg = One selector | Many "selector list"

record findOptions =
  opt_timeout :: "ms option"
  opt_state :: "string option"

definition selectorsOf :: "selectorArg \<Rightarrow> selector list" where
  "selectorsOf selectorArray = (case selectorArray of Many xs \<Rightarrow> xs | One x \<Rightarrow> [x])"

text \<open>
  The loop of \<^verbatim>\<open>findElement\<close>: \<open>n\<close> is \<^verbatim>\<open>selectors.length\<close> of the whole array, and the
  quotient \<^verbatim>\<open>timeout / selectors.length\<close> is taken as the exact one.
\<close>

fun findElement_loop ::
  "('w, 'h) driver \<Rightarrow> ms \<Rightarrow> nat \<Rightarrow> string \<Rightarrow> selector list \<Rightarrow> ('w, 'h) run
     \<Rightarrow> 'h option \<times> ('w, 'h) run" where
  "findElement_loop d timeout n state [] s = (None, s)"
| "findElement_loop d timeout n state (selector # rest) s =
     (case call (WaitForSelector selector (timeout / of_nat n) state)
             (pw_waitForSelector d selector (timeout / of_nat n) state) s of
        (Inr (Some element), s') \<Rightarrow> (Some element, s')
      | (Inr None, s') \<Rightarrow> findElement_loop d timeout n state rest s'
      | (Inl e, s') \<Rightarrow> findElement_loop d timeout n state rest s')"

definition findElement ::
  "('w, 'h) driver \<Rightarrow> selectorArg \<Rightarrow> findOptions \<Rightarrow> ('w, 'h) run
     \<Rightarrow> (error + 'h option) \<times> ('w, 'h) run" where
  "findElement d selectorArray options s =
     (let timeout = (case opt_timeout options of None \<Rightarrow> 5000 | Some t \<Rightarrow> t);
          state = (case opt_state options of None \<Rightarrow> ''visible'' | Some st \<Rightarrow> st);
          selectors = selectorsOf selectorArray
      in case findElement_loop d timeout (length selectors) state selectors s of
           (r, s') \<Rightarrow> (Inr r, s'))"

fun elementExists_loop ::
  "('w, 'h) driver \<Rightarrow> selector list \<Rightarrow> ('w, 'h) run \<Rightarrow> bool \<times> ('w, 'h) run" where
  "elementExists_loop d [] s = (False, s)"
| "elementExists_loop d (selector # rest) s =
     (case call (Query selector) (pw_query d selector) s of
        (Inr (Some element), s') \<Rightarrow> (True, s')
      | (Inr None, s') \<Rightarrow> elementExists_loop d rest s'
      | (Inl e, s') \<Rightarrow> elementExists_loop d rest s')"

definition elementExists ::
  "('w, 'h) driver \<Rightarrow> selectorArg \<Rightarrow> ('w, 'h) run \<Rightarrow> (error + bool) \<times> ('w, 'h) run" where
  "elementExists d selectorArray s =
     (case elementExists_loop d (selectorsOf selectorArray) s of (r, s') \<Rightarrow> (Inr r, s'))"

section \<open>bot.js: isWaitingRoom\<close>

definition isWaitingRoom :: "string \<Rightarrow> bool" where
  "isWaitingRoom url =
     list_ex (\<lambda>pattern. includes_js (toLowerCase url) pattern) waitingRoom_urlPatterns"

section \<open>bot.js: waitForBuyButton\<close>

text \<open>
  The inner \<^verbatim>\<open>for\<close> loop over \<^verbatim>\<open>selectors.event.buyButton\<close>. Its \<^verbatim>\<open>try\<close> block covers the
  query and both probes: a rejection of any of them passes on to the next selector.
\<close>

fun scanBuyButton ::
  "('w, 'h) driver \<Rightarrow> nat \<Rightarrow> selector list \<Rightarrow> ('w, 'h) run \<Rightarrow> 'h option \<times> ('w, 'h) run" where
  "scanBuyButton d iterations [] s = (None, s)"
| "scanBuyButton d iterations (selector # rest) s =
     (case call (Query selector) (pw_query d selector) s of
        (Inl e, s1) \<Rightarrow> scanBuyButton d iterations rest s1
      | (Inr None, s1) \<Rightarrow> scanBuyButton d iterations rest s1
      | (Inr (Some button), s1) \<Rightarrow>
          (case call (IsDisabled (Handle button)) (pw_isDisabled d (Handle button)) s1 of
             (Inl e, s2) \<Rightarrow> scanBuyButton d iterations rest s2
           | (Inr isDisabled, s2) \<Rightarrow>
               (case call (IsVisible (Handle button) None)
                       (pw_isVisible d (Handle button) None) s2 of
                  (Inl e, s3) \<Rightarrow> scanBuyButton d iterations rest s3
                | (Inr isVisible, s3) \<Rightarrow>
                    if isVisible \<and> \<not> isDisabled
                    then (Some button,
                          logger Success
                            [S ''Buy button found after '', N iterations, S '' iterations!''] s3)
                    else scanBuyButton d iterations rest s3)))"

text \<open>
  How a call of \<^verbatim>\<open>waitForBuyButton\<close> can end: it returns the button, a rejection that no
  \<^verbatim>\<open>try\<close> covers escapes it, or the \<^verbatim>\<open>while\<close> loop is left through its condition and the
  function returns \<^verbatim>\<open>undefined\<close>.
\<close>

datatype 'h pollResult = Returned 'h | Threw error | Undefined

text \<open>
  One pass through the body of the \<^verbatim>\<open>while\<close> loop, \<open>iterations\<close> being the counter after its
  increment. The value \<open>None\<close> is the end of the body (or its \<^verbatim>\<open>continue\<close>): the loop
  goes on.
\<close>

definition waitForBuyButton_body ::
  "('w, 'h) driver \<Rightarrow> ms \<Rightarrow> nat \<Rightarrow> ('w, 'h) run \<Rightarrow> 'h pollResult option \<times> ('w, 'h) run" where
  "waitForBuyButton_body d pollInterval iterations s =
     (case call GetUrl (\<lambda>w. (pw_url d w, w)) s of
        (currentUrl, s0) \<Rightarrow>
          if isWaitingRoom currentUrl then
            (let s1 = (if iterations mod 50 = 1
                       then logger Queue
                              [S ''In waiting room - staying patient, NOT refreshing...''] s0
                       else s0)
             in case call (WaitForTimeout pollInterval) (pw_waitForTimeout d pollInterval) s1 of
                  (Inl e, s2) \<Rightarrow> (Some (Threw e), s2)
                | (Inr u, s2) \<Rightarrow> (None, s2))
          else
            (case scanBuyButton d iterations event_buyButton s0 of
               (Some button, s1) \<Rightarrow> (Some (Returned button), s1)
             | (None, s1) \<Rightarrow>
                 (let s2 = (if iterations mod 100 = 0
                            then logger Info
                                   [S ''Still scanning... ('',
                                    R (of_nat iterations * pollInterval / 1000),
                                    S ''s elapsed)''] s1
                            else s1)
                  in case call (WaitForTimeout pollInterval) (pw_waitForTimeout d pollInterval) s2 of
                       (Inl e, s3) \<Rightarrow> (Some (Threw e), s3)
                     | (Inr u, s3) \<Rightarrow> (None, s3))))"

text \<open>
  The \<^verbatim>\<open>while (!found)\<close> loop. It has no bound of its own, so the model counts the passes
  it may still make: \<open>None\<close> says that the loop is still running when they are used up.
  The body assigns \<^verbatim>\<open>found\<close> only on the line before its \<^verbatim>\<open>return\<close>.
\<close>

fun waitForBuyButton_loop ::
  "nat \<Rightarrow> ('w, 'h) driver \<Rightarrow> ms \<Rightarrow> bool \<Rightarrow> nat \<Rightarrow> ('w, 'h) run
     \<Rightarrow> ('h pollResult \<times> ('w, 'h) run) option" where
  "waitForBuyButton_loop 0 d pollInterval found iterations s = None"
| "waitForBuyButton_loop (Suc passes) d pollInterval found iterations s =
     (if found then Some (Undefined, s)
      else case waitForBuyButton_body d pollInterval (iterations + 1) s of
             (Some result, s') \<Rightarrow> Some (result, s')
           | (None, s') \<Rightarrow>
               waitForBuyButton_loop passes d pollInterval found (iterations + 1) s')"

definition waitForBuyButton ::
  "nat \<Rightarrow> ('w, 'h) driver \<Rightarrow> ms \<Rightarrow> ('w, 'h) run \<Rightarrow> ('h pollResult \<times> ('w, 'h) run) option" where
  "waitForBuyButton passes d pollInterval s =
     waitForBuyButton_loop passes d pollInterval False 0
       (logger War [S ''WAR MODE ACTIVATED - Scanning for ticket button...''] s)"

section \<open>bot.js: fillForm\<close>

text \<open>
  The part of \<^verbatim>\<open>fillForm\<close> that fills the name, the identity number, the e-mail address and
  the phone: the listing of the inputs, the fields filled by selector, and the phone filled
  by position. The blocks that follow in the source (domicile, gender, date of birth, terms)
  work on other fields.
\<close>

record personalData =
  pd_name :: string
  pd_nik :: string
  pd_email :: string
  pd_phone :: string

subsection \<open>The listing of the inputs\<close>

text \<open>\<^verbatim>\<open>await inp.getAttribute(a) || ''\<close>\<close>

definition orEmpty :: "string option \<Rightarrow> string" where
  "orEmpty v = (case v of None \<Rightarrow> [] | Some x \<Rightarrow> x)"

text \<open>
  The body of the listing loop for the input \<open>inp\<close> of index \<open>i\<close>: four attributes are
  read and shown; a rejection ends the body without the message.
\<close>

definition listInput :: "('w, 'h) driver \<Rightarrow> nat \<Rightarrow> 'h \<Rightarrow> ('w, 'h) run \<Rightarrow> ('w, 'h) run" where
  \<open>listInput d i inp s =
     (case andThen (call (GetAttribute (Handle inp) ''name'') (pw_getAttribute d (Handle inp) ''name'') s)
             (\<lambda>nameAttr s.
           andThen (call (GetAttribute (Handle inp) ''type'') (pw_getAttribute d (Handle inp) ''type'') s)
             (\<lambda>typeAttr s.
           andThen (call (GetAttribute (Handle inp) ''placeholder'')
                      (pw_getAttribute d (Handle inp) ''placeholder'') s)
             (\<lambda>placeholder s.
           andThen (call (GetAttribute (Handle inp) ''id'') (pw_getAttribute d (Handle inp) ''id'') s)
             (\<lambda>idAttr s.
               (Inr (),
                logger Info
                  [S ''  Input '', N (i + 1), S '': name="'', S (orEmpty nameAttr),
                   S ''" type="'', S (orEmpty typeAttr),
                   S ''" placeholder="'', S (orEmpty placeholder),
                   S ''" id="'', S (orEmpty idAttr), S ''"''] s))))) of
        (r, s') \<Rightarrow> s')\<close>

fun listInputs :: "('w, 'h) driver \<Rightarrow> nat \<Rightarrow> 'h list \<Rightarrow> ('w, 'h) run \<Rightarrow> ('w, 'h) run" where
  "listInputs d i [] s = s"
| "listInputs d i (inp # rest) s = listInputs d (i + 1) rest (listInput d i inp s)"

subsection \<open>The fields filled by selector\<close>

record mapping =
  mapping_name :: string
  mapping_value :: string
  mapping_selectors :: "selector list"

definition fieldMappings :: "personalData \<Rightarrow> mapping list" where
  \<open>fieldMappings personalData =
     [\<lparr> mapping_name = ''Name'', mapping_value = pd_name personalData,
         mapping_selectors =
           [''input[name="firstname"]'',
            ''input[name="name"]'',
            ''input[name="fullname"]'',
            ''input[name="full_name"]'',
            ''input[name*="nama"]'',
            ''input[placeholder*="Nama"]'',
            ''input[placeholder*="Name"]'',
            ''input[id*="name"]'',
            ''input[id*="nama"]''] \<rparr>,
      \<lparr> mapping_name = ''NIK'', mapping_value = pd_nik personalData,
         mapping_selectors =
           [''input[name="identity_id"]'',
            ''input[name="nik"]'',
            ''input[name*="identity"]'',
            ''input[name*="nik"]'',
            ''input[name*="ktp"]'',
            ''input[placeholder*="NIK"]'',
            ''input[placeholder*="KTP"]'',
            ''input[placeholder*="Identitas"]'',
            ''input[id*="nik"]'',
            ''input[id*="identity"]''] \<rparr>,
      \<lparr> mapping_name = ''Email'', mapping_value = pd_email personalData,
         mapping_selectors =
           [''input[name="email"]'',
            ''input[type="email"]'',
            ''input[id="email"]'',
            ''input[name*="email"]'',
            ''input[placeholder*="Email"]'',
            ''input[id*="email"]''] \<rparr>,
      \<lparr> mapping_name = ''Phone'', mapping_value = pd_phone personalData,
         mapping_selectors =
           [''input[name="phone"]'',
            ''input[name="phoneNumber"]'',
            ''input[name*="phone"]'',
            ''input[type="tel"]''] \<rparr>]\<close>

text \<open>
  The loop over the selectors of one mapping; its value is the flag \<^verbatim>\<open>filled\<close>. The first
  field that is found visible is filled, and when the fill resolves the success is reported
  with the first ten characters of the configured value, and the loop is left. Nothing is
  read back from the field. A rejected fill passes on to the next selector.
\<close>

fun fillField_loop ::
  "('w, 'h) driver \<Rightarrow> mapping \<Rightarrow> selector list \<Rightarrow> ('w, 'h) run \<Rightarrow> bool \<times> ('w, 'h) run" where
  "fillField_loop d m [] s = (False, s)"
| "fillField_loop d m (selector # rest) s =
     (case isVisibleOrFalse d (Loc (First (Locator selector))) 500 s of
        (False, s1) \<Rightarrow> fillField_loop d m rest s1
      | (True, s1) \<Rightarrow>
          (case call (Fill (Loc (First (Locator selector))) (mapping_value m))
                  (pw_fill d (Loc (First (Locator selector))) (mapping_value m)) s1 of
             (Inl e, s2) \<Rightarrow> fillField_loop d m rest s2
           | (Inr u, s2) \<Rightarrow>
               (True,
                logger Success
                  [S ''Filled '', S (mapping_name m), S '': '', S (take 10 (mapping_value m)),
                   S ''...''] s2)))"

text \<open>The body of the loop over the mappings, and the loop.\<close>

definition fillField :: "('w, 'h) driver \<Rightarrow> mapping \<Rightarrow> ('w, 'h) run \<Rightarrow> ('w, 'h) run" where
  "fillField d m s =
     (case fillField_loop d m (mapping_selectors m) s of
        (True, s') \<Rightarrow> s'
      | (False, s') \<Rightarrow> logger Warn [S ''Could not find field for: '', S (mapping_name m)] s')"

definition fillFields :: "('w, 'h) driver \<Rightarrow> mapping list \<Rightarrow> ('w, 'h) run \<Rightarrow> ('w, 'h) run" where
  "fillFields d ms s = fold (fillField d) ms s"

subsection \<open>The phone field filled by position\<close>

text \<open>\<^verbatim>\<open>phone.replace(/^0/, '')\<close>: one leading zero is removed.\<close>

definition replaceLeadingZero :: "string \<Rightarrow> string" where
  "replaceLeadingZero phone =
     (case phone of [] \<Rightarrow> [] | c # rest \<Rightarrow> if c = CHR ''0'' then rest else phone)"

definition phoneInputs :: locator where
  \<open>phoneInputs = Locator ''input[type="text"]:visible''\<close>

text \<open>
  The input is focused, cleared and typed into, and its value is read back. A rejection of
  any of these calls leaves the block through its \<^verbatim>\<open>catch\<close>.
\<close>

definition typePhone ::
  "('w, 'h) driver \<Rightarrow> string \<Rightarrow> 'h target \<Rightarrow> ('w, 'h) run \<Rightarrow> (error + string) \<times> ('w, 'h) run" where
  "typePhone d phone inp s =
     andThen (call (Click inp None) (pw_click d inp None) s) (\<lambda>u s.
     andThen (call (WaitForTimeout 100) (pw_waitForTimeout d 100) s) (\<lambda>u s.
     andThen (call (Fill inp []) (pw_fill d inp []) s) (\<lambda>u s.
     andThen (call (WaitForTimeout 50) (pw_waitForTimeout d 50) s) (\<lambda>u s.
     andThen (call (TypeText inp phone 30) (pw_typeText d inp phone 30) s) (\<lambda>u s.
     andThen (call (WaitForTimeout 100) (pw_waitForTimeout d 100) s) (\<lambda>u s.
     call (InputValue inp) (pw_inputValue d inp) s))))))"

text \<open>The comparison of the value read back, and the message it leads to.\<close>

definition reportPhone :: "string \<Rightarrow> nat \<Rightarrow> string \<Rightarrow> 'h action" where
  "reportPhone phone i newValue =
     (if newValue = phone \<or> newValue = replaceLeadingZero phone
      then Log Success [S ''Filled Phone (input '', N (i + 1), S ''): '', S (take 8 newValue), S ''...'']
      else Log Warn [S ''Phone value after type: '', S newValue])"

text \<open>
  The body of the \<^verbatim>\<open>for\<close> loop for the input of index \<open>i\<close>; the value says whether the
  loop was left by \<^verbatim>\<open>break\<close>.
\<close>

definition fillPhone_body ::
  "('w, 'h) driver \<Rightarrow> string \<Rightarrow> nat \<Rightarrow> ('w, 'h) run \<Rightarrow> (error + bool) \<times> ('w, 'h) run" where
  "fillPhone_body d phone i s =
     (let inp = Loc (Nth phoneInputs i) in
      andThen (call (GetAttribute inp ''name'') (pw_getAttribute d inp ''name'') s) (\<lambda>nameAttr s.
      andThen (call (InputValue inp) (pw_inputValue d inp) s) (\<lambda>currentValue s.
        if (nameAttr = None \<or> nameAttr = Some []) \<and> currentValue = []
        then andThen (typePhone d phone inp s) (\<lambda>newValue s.
               (Inr True, (fst s, snd s @ [reportPhone phone i newValue])))
        else (Inr False, s))))"

fun fillPhone_loop ::
  "('w, 'h) driver \<Rightarrow> string \<Rightarrow> nat list \<Rightarrow> ('w, 'h) run \<Rightarrow> (error + unit) \<times> ('w, 'h) run" where
  "fillPhone_loop d phone [] s = (Inr (), s)"
| "fillPhone_loop d phone (i # rest) s =
     (case fillPhone_body d phone i s of
        (Inl e, s') \<Rightarrow> (Inl e, s')
      | (Inr True, s') \<Rightarrow> (Inr (), s')
      | (Inr False, s') \<Rightarrow> fillPhone_loop d phone rest s')"

text \<open>The whole \<^verbatim>\<open>try\<close> statement (``Fill Phone by position'').\<close>

definition fillPhoneByPosition ::
  "('w, 'h) driver \<Rightarrow> string \<Rightarrow> ('w, 'h) run \<Rightarrow> ('w, 'h) run" where
  "fillPhoneByPosition d phone s =
     (case andThen (call (All phoneInputs) (pw_allOf d phoneInputs) s) (\<lambda>n s.
             fillPhone_loop d phone [0..<n]
               (logger Info [S ''Found '', N n, S '' visible text inputs for phone check''] s)) of
        (Inl e, s') \<Rightarrow> logger Warn [S ''Phone position fill error: '', S (message e)] s'
      | (Inr u, s') \<Rightarrow> s')"

subsection \<open>The function up to the phone\<close>

text \<open>
  \<^verbatim>\<open>fillForm\<close> from its first statement to the end of the block that fills the phone by
  position. The sleep and the query of the inputs are covered by no \<^verbatim>\<open>try\<close>.
\<close>

definition fillForm_toPhone ::
  "('w, 'h) driver \<Rightarrow> personalData \<Rightarrow> ('w, 'h) run \<Rightarrow> (error + unit) \<times> ('w, 'h) run" where
  "fillForm_toPhone d personalData s =
     andThen (call (WaitForTimeout 2000) (pw_waitForTimeout d 2000)
                (logger Info [S ''Filling personal data form...''] s)) (\<lambda>u s.
     andThen (call (QueryAll ''input:visible, textarea:visible'')
                (pw_queryAll d ''input:visible, textarea:visible'') s) (\<lambda>allInputs s.
       (Inr (),
        fillPhoneByPosition d (pd_phone personalData)
          (fillFields d (fieldMappings personalData)
            (listInputs d 0 allInputs
              (logger Info [S ''Found '', N (length allInputs), S '' visible input fields''] s))))))"

section \<open>Regular expressions of the source\<close>

text \<open>
  The regular expression literals of \<^verbatim>\<open>bot.js\<close> are kept as terms, and matched the way a
  backtracking matcher does. Page text is modelled as a \<^typ>\<open>string\<close>; \<^verbatim>\<open>\d\<close> is 0..9,
  \<^verbatim>\<open>\w\<close> is a letter A..Z or a..z, a digit or the underscore, \<^verbatim>\<open>\s\<close> is the white space
  among the first 256 characters, and the flag \<^verbatim>\<open>i\<close> identifies A..Z with a..z.
\<close>

datatype re =
    Eps
  | Lit char
  | Digit
  | Space
  | OneOf "char list" bool
  | WordB
  | Seq re re
  | Alt re re
  | Star re
  | Opt re
  | Rep nat nat re

definition isDigit :: "char \<Rightarrow> bool" where
  "isDigit c = (let n = (of_char c :: nat) in 48 \<le> n \<and> n \<le> 57)"

definition isSpace :: "char \<Rightarrow> bool" where
  "isSpace c = (let n = (of_char c :: nat) in (9 \<le> n \<and> n \<le> 13) \<or> n = 32 \<or> n = 160)"

definition isWordChar :: "char \<Rightarrow> bool" where
  "isWordChar c =
     (let n = (of_char c :: nat)
      in (48 \<le> n \<and> n \<le> 57) \<or> (65 \<le> n \<and> n \<le> 90) \<or> n = 95 \<or> (97 \<le> n \<and> n \<le> 122))"

text \<open>
  A position in the subject: the character before it, if any, and the rest of the subject.
\<close>

type_synonym cursor = "char option \<times> string"

definition wordBefore :: "cursor \<Rightarrow> bool" where
  "wordBefore st = (case fst st of None \<Rightarrow> False | Some c \<Rightarrow> isWordChar c)"

definition wordAfter :: "cursor \<Rightarrow> bool" where
  "wordAfter st = (case snd st of [] \<Rightarrow> False | c # cs \<Rightarrow> isWordChar c)"

definition step1 :: "(char \<Rightarrow> bool) \<Rightarrow> cursor \<Rightarrow> cursor list" where
  "step1 P st = (case snd st of [] \<Rightarrow> [] | c # cs \<Rightarrow> if P c then [(Some c, cs)] else [])"

fun weight :: "re \<Rightarrow> nat" where
  "weight (Seq a b) = Suc (weight a + weight b)"
| "weight (Alt a b) = Suc (weight a + weight b)"
| "weight (Star a) = Suc (weight a)"
| "weight (Opt a) = Suc (weight a)"
| "weight (Rep lo hi a) = Suc (hi + weight a)"
| "weight r = 0"

text \<open>
  \<open>ways i r st\<close>: the positions at which a match of \<open>r\<close> that starts at \<open>st\<close> can end, in the
  order in which the matcher tries them (quantifiers are greedy; an iteration of \<open>*\<close> that
  consumes nothing is not taken). \<open>i\<close> is the flag \<^verbatim>\<open>i\<close>.
\<close>

function ways :: "bool \<Rightarrow> re \<Rightarrow> cursor \<Rightarrow> cursor list" where
  "ways i Eps st = [st]"
| "ways i (Lit a) st = step1 (\<lambda>c. if i then toLowerChar c = toLowerChar a else c = a) st"
| "ways i Digit st = step1 isDigit st"
| "ways i Space st = step1 isSpace st"
| "ways i (OneOf cs sp) st = step1 (\<lambda>c. c \<in> set cs \<or> (sp \<and> isSpace c)) st"
| "ways i WordB st = (if wordBefore st \<noteq> wordAfter st then [st] else [])"
| "ways i (Seq a b) st = concat (map (ways i b) (ways i a st))"
| "ways i (Alt a b) st = ways i a st @ ways i b st"
| "ways i (Star a) st =
     concat (map (\<lambda>st'. if length (snd st') < length (snd st) then ways i (Star a) st' else [])
                 (ways i a st)) @ [st]"
| "ways i (Opt a) st = ways i a st @ [st]"
| "ways i (Rep lo hi a) st =
     (if hi = 0 then [st]
      else concat (map (ways i (Rep (lo - 1) (hi - 1) a)) (ways i a st))
           @ (if lo = 0 then [st] else []))"
  by pat_completeness auto
termination
  by (relation "measures [\<lambda>(i, r, st). weight r, \<lambda>(i, r, st). length (snd st)]") auto

declare ways.simps [simp del]

text \<open>
  \<^verbatim>\<open>subject.match(r)\<close> for a pattern with the flag \<^verbatim>\<open>g\<close>: the matched substrings from left to
  right, the search going on where the last match ended (one character further after an
  empty match); the empty list is the result \<^verbatim>\<open>null\<close>.
\<close>

fun matchAll_from :: "bool \<Rightarrow> re \<Rightarrow> cursor \<Rightarrow> string list" where
  "matchAll_from i r (p, []) = (case ways i r (p, []) of [] \<Rightarrow> [] | st' # others \<Rightarrow> [[]])"
| "matchAll_from i r (p, c # cs) =
     (case ways i r (p, c # cs) of
        [] \<Rightarrow> matchAll_from i r (Some c, cs)
      | st' # others \<Rightarrow>
          if length (snd st') < length (c # cs)
          then take (length (c # cs) - length (snd st')) (c # cs) # matchAll_from i r st'
          else [] # matchAll_from i r (Some c, cs))"

definition matchAll :: "bool \<Rightarrow> re \<Rightarrow> string \<Rightarrow> string list" where
  "matchAll i r subject = matchAll_from i r (None, subject)"

text \<open>\<^verbatim>\<open>subject.match(r)\<close> for a pattern without the flag \<^verbatim>\<open>g\<close>: the leftmost match.\<close>

fun matchFirst_from :: "bool \<Rightarrow> re \<Rightarrow> cursor \<Rightarrow> string option" where
  "matchFirst_from i r (p, []) = (case ways i r (p, []) of [] \<Rightarrow> None | st' # others \<Rightarrow> Some [])"
| "matchFirst_from i r (p, c # cs) =
     (case ways i r (p, c # cs) of
        [] \<Rightarrow> matchFirst_from i r (Some c, cs)
      | st' # others \<Rightarrow> Some (take (length (c # cs) - length (snd st')) (c # cs)))"

definition matchFirst :: "bool \<Rightarrow> re \<Rightarrow> string \<Rightarrow> string option" where
  "matchFirst i r subject = matchFirst_from i r (None, subject)"

text \<open>A word of the pattern, character by character.\<close>

fun lit :: "string \<Rightarrow> re" where
  "lit [] = Eps"
| "lit (c # cs) = Seq (Lit c) (lit cs)"

text \<open>\<^verbatim>\<open>/\b(\d{10,16})\b/g\<close> and \<^verbatim>\<open>/\b(\d{12,16})\b/g\<close>\<close>

definition digitToken :: "nat \<Rightarrow> re" where
  "digitToken lo = Seq WordB (Seq (Rep lo 16 Digit) WordB)"

text \<open>
  \<^verbatim>\<open>/(?:virtual\s*account|va\s*bca|nomor\s*va|no\.?\s*va|rekening)[:\s]*(\d{10,16})/gi\<close>
\<close>

definition vaContextPattern :: re where
  "vaContextPattern =
     Seq (Alt (Seq (lit ''virtual'') (Seq (Star Space) (lit ''account'')))
         (Alt (Seq (lit ''va'') (Seq (Star Space) (lit ''bca'')))
         (Alt (Seq (lit ''nomor'') (Seq (Star Space) (lit ''va'')))
         (Alt (Seq (lit ''no'') (Seq (Opt (Lit CHR ''.'')) (Seq (Star Space) (lit ''va''))))
              (lit ''rekening'')))))
         (Seq (Star (OneOf '':'' True)) (Rep 10 16 Digit))"

text \<open>\<^verbatim>\<open>/(\d{10,16})/\<close>\<close>

definition digitRun :: re where
  "digitRun = Rep 10 16 Digit"

section \<open>bot.js: setQuantity and selectCategory\<close>

subsection \<open>setQuantity\<close>

text \<open>\<^verbatim>\<open>String(amount)\<close> for a natural number: its decimal digits.\<close>

fun stringOf :: "nat \<Rightarrow> string" where
  "stringOf n =
     (if n < 10 then [char_of (48 + n)] else stringOf (n div 10) @ [char_of (48 + n mod 10)])"

declare stringOf.simps [simp del]

definition quantityInput :: selector where
  \<open>quantityInput =
     ''input[type="number"], .quantity-input, [class*="quantity"] input, input[name*="qty"]''\<close>

definition plusButton :: selector where
  \<open>plusButton = ''.qty-plus, .btn-plus, [class*="plus"], button:has-text("+")''\<close>

text \<open>The loop \<^verbatim>\<open>for (let i = 1; i < amount; i++)\<close> over the clicks on the plus button.\<close>

fun plusLoop ::
  "('w, 'h) driver \<Rightarrow> 'h \<Rightarrow> nat list \<Rightarrow> ('w, 'h) run \<Rightarrow> (error + unit) \<times> ('w, 'h) run" where
  "plusLoop d b [] s = (Inr (), s)"
| "plusLoop d b (i # rest) s =
     (case call (Click (Handle b) None) (pw_click d (Handle b) None) s of
        (Inl e, s1) \<Rightarrow> (Inl e, s1)
      | (Inr u, s1) \<Rightarrow>
          (case call (WaitForTimeout 100) (pw_waitForTimeout d 100) s1 of
             (Inl e, s2) \<Rightarrow> (Inl e, s2)
           | (Inr u', s2) \<Rightarrow> plusLoop d b rest s2))"

text \<open>
  The whole function is one \<^verbatim>\<open>try\<close> statement whose \<^verbatim>\<open>catch\<close> warns: it always returns.
\<close>

definition setQuantity :: "('w, 'h) driver \<Rightarrow> nat \<Rightarrow> ('w, 'h) run \<Rightarrow> ('w, 'h) run" where
  "setQuantity d amount s =
     (case andThen (call (Query quantityInput) (pw_query d quantityInput)
                     (logger Info [S ''Setting quantity to '', N amount, S ''...''] s))
             (\<lambda>found s.
                case found of
                  Some inp \<Rightarrow>
                    andThen (call (Fill (Handle inp) []) (pw_fill d (Handle inp) []) s) (\<lambda>u s.
                    andThen (call (Fill (Handle inp) (stringOf amount))
                               (pw_fill d (Handle inp) (stringOf amount)) s) (\<lambda>u s.
                      (Inr (), logger Success [S ''Quantity set to '', N amount] s)))
                | None \<Rightarrow>
                    andThen (call (Query plusButton) (pw_query d plusButton) s) (\<lambda>plus s.
                      case plus of
                        Some b \<Rightarrow>
                          andThen (plusLoop d b [1..<amount] s) (\<lambda>u s.
                            (Inr (),
                             logger Success
                               [S ''Quantity set to '', N amount, S '' using plus button''] s))
                      | None \<Rightarrow>
                          (Inr (),
                           logger Warn
                             [S ''Could not find quantity selector, proceeding with default quantity'']
                             s))) of
        (Inl e, s') \<Rightarrow> logger Warn [S ''Error setting quantity: '', S (message e)] s'
      | (Inr u, s') \<Rightarrow> s')"

subsection \<open>The listing of the buttons\<close>

text \<open>\<^verbatim>\<open>t.trim()\<close>\<close>

definition trim :: "string \<Rightarrow> string" where
  "trim t = rev (dropWhile isSpace (rev (dropWhile isSpace t)))"

text \<open>
  The body of the listing loop for the button \<open>btn\<close> of index \<open>i\<close>; a rejection ends the body
  without the message. For a text content of \<^verbatim>\<open>null\<close> the template shows \<^verbatim>\<open>undefined\<close>.
\<close>

definition listButton :: "('w, 'h) driver \<Rightarrow> nat \<Rightarrow> 'h \<Rightarrow> ('w, 'h) run \<Rightarrow> ('w, 'h) run" where
  \<open>listButton d i btn s =
     (case andThen (call (TextContent (Handle btn)) (pw_textContent d (Handle btn)) s)
             (\<lambda>btnText s.
           andThen (call (IsVisible (Handle btn) None) (pw_isVisible d (Handle btn) None) s)
             (\<lambda>btnVisible s.
               (Inr (),
                logger Info
                  [S ''  Button '', N (i + 1), S '': "'',
                   S (case btnText of None \<Rightarrow> ''undefined'' | Some t \<Rightarrow> take 30 (trim t)),
                   S ''" (visible: '', B btnVisible, S '')''] s))) of
        (r, s') \<Rightarrow> s')\<close>

fun listButtons :: "('w, 'h) driver \<Rightarrow> nat \<Rightarrow> 'h list \<Rightarrow> ('w, 'h) run \<Rightarrow> ('w, 'h) run" where
  "listButtons d i [] s = s"
| "listButtons d i (btn # rest) s = listButtons d (i + 1) rest (listButton d i btn s)"

subsection \<open>The first block: any visible Select button\<close>

definition selectButtonSelectors :: "selector list" where
  \<open>selectButtonSelectors =
     [''button:has-text("Select")'',
      ''button:has-text("Pilih")'',
      ''[role="button"]:has-text("Select")'',
      ''div[class*="select"]:has-text("Select")'',
      ''button.bg-blue-500'',
      ''button.btn-primary'',
      ''button[class*="primary"]'',
      ''button[class*="select"]'']\<close>

definition qtySelectors :: "string \<Rightarrow> selector list" where
  \<open>qtySelectors qtyText =
     [''text="'' @ qtyText @ ''"'',
      ''div:has-text("'' @ qtyText @ ''"):not(:has(*:has-text("'' @ qtyText @ ''")))'',
      ''span:text-is("'' @ qtyText @ ''")'',
      ''li >> text="'' @ qtyText @ ''"'',
      ''[role="option"]:has-text("'' @ qtyText @ ''")'',
      ''div:text-is("'' @ qtyText @ ''")'',
      ''p:text-is("'' @ qtyText @ ''")'',
      ''ul li:first-child'',
      ''[role="listbox"] [role="option"]:first-child'',
      ''div.visible:has-text("1")'']\<close>

definition proceedSelectors :: "selector list" where
  \<open>proceedSelectors =
     [''button:has-text("Order Now")'',
      ''button:has-text("Order")'',
      ''button:has-text("Continue")'',
      ''button:has-text("Proceed")'',
      ''button:has-text("Checkout")'',
      ''button:has-text("Lanjutkan")'',
      ''button:has-text("Pesan")'',
      ''button[type="submit"]:visible'']\<close>

definition interactiveElements :: locator where
  \<open>interactiveElements = Locator ''button:visible, [role="button"]:visible, a:visible''\<close>

text \<open>
  The loop over the quantity options; its value is the flag \<^verbatim>\<open>qtyClicked\<close>. A rejected
  click passes on to the next selector.
\<close>

fun qtyLoop ::
  "('w, 'h) driver \<Rightarrow> string \<Rightarrow> selector list \<Rightarrow> ('w, 'h) run \<Rightarrow> bool \<times> ('w, 'h) run" where
  "qtyLoop d qtyText [] s = (False, s)"
| "qtyLoop d qtyText (qtySel # rest) s =
     (case isVisibleOrFalse d (Loc (First (Locator qtySel))) 300 s of
        (False, s1) \<Rightarrow> qtyLoop d qtyText rest s1
      | (True, s1) \<Rightarrow>
          (case call (Click (Loc (First (Locator qtySel))) None)
                  (pw_click d (Loc (First (Locator qtySel))) None)
                  (logger Info [S ''Found quantity option: '', S qtySel] s1) of
             (Inl e, s2) \<Rightarrow> qtyLoop d qtyText rest s2
           | (Inr u, s2) \<Rightarrow> (True, logger Success [S ''Selected quantity: '', S qtyText] s2)))"

text \<open>
  The loop over the proceed buttons. A rejected click, or a rejected sleep after the click,
  passes on to the next selector.
\<close>

fun proceedLoop :: "('w, 'h) driver \<Rightarrow> selector list \<Rightarrow> ('w, 'h) run \<Rightarrow> ('w, 'h) run" where
  "proceedLoop d [] s = s"
| "proceedLoop d (procSel # rest) s =
     (case isVisibleOrFalse d (Loc (First (Locator procSel))) 500 s of
        (False, s1) \<Rightarrow> proceedLoop d rest s1
      | (True, s1) \<Rightarrow>
          (case call (Click (Loc (First (Locator procSel))) None)
                  (pw_click d (Loc (First (Locator procSel))) None)
                  (logger Info [S ''Found proceed button: '', S procSel] s1) of
             (Inl e, s2) \<Rightarrow> proceedLoop d rest s2
           | (Inr u, s2) \<Rightarrow>
               (case call (WaitForTimeout 2000) (pw_waitForTimeout d 2000)
                       (logger Success [S ''Clicked proceed button!''] s2) of
                  (Inl e, s3) \<Rightarrow> proceedLoop d rest s3
                | (Inr u', s3) \<Rightarrow> s3)))"

text \<open>
  What follows the click on the Select button, up to the \<^verbatim>\<open>break\<close>: the quantity is chosen
  from the dropdown, by selector or by position, and a proceed button is clicked. A
  rejection here reaches the \<^verbatim>\<open>catch\<close> of the loop over the Select buttons.
\<close>

definition afterSelect ::
  "('w, 'h) driver \<Rightarrow> nat \<Rightarrow> box \<Rightarrow> ('w, 'h) run \<Rightarrow> (error + unit) \<times> ('w, 'h) run" where
  "afterSelect d ticketAmount box s =
     andThen (call (WaitForTimeout 500) (pw_waitForTimeout d 500) s) (\<lambda>u s.
       case call GetUrl (\<lambda>w. (pw_url d w, w)) s of
         (newUrl, s) \<Rightarrow>
           andThen (call (Count interactiveElements) (pw_count d interactiveElements)
                      (logger Info [S ''After click URL: '', S newUrl] s)) (\<lambda>allVis s.
             case qtyLoop d (stringOf ticketAmount) (qtySelectors (stringOf ticketAmount))
                    (logger Info [S ''Looking for quantity dropdown options...'']
                      (logger Info [S ''Visible interactive elements after click: '', N allVis] s)) of
               (qtyClicked, s) \<Rightarrow>
                 andThen
                   (if \<not> qtyClicked
                    then andThen
                           (call (MouseClick (box_x box + box_width box / 2)
                                    (box_y box + box_height box + 20))
                              (pw_mouseClick d (box_x box + box_width box / 2)
                                    (box_y box + box_height box + 20))
                              (logger Info
                                 [S ''Trying to click first dropdown option by position...''] s))
                           (\<lambda>u s. (Inr (), logger Info [S ''Clicked on estimated dropdown position''] s))
                    else (Inr (), s))
                   (\<lambda>u s.
                      andThen (call (WaitForTimeout 400) (pw_waitForTimeout d 400) s) (\<lambda>u s.
                        (Inr (), proceedLoop d proceedSelectors s)))))"

text \<open>
  The loop over \<^verbatim>\<open>selectButtonSelectors\<close>; its value is the flag \<^verbatim>\<open>clicked\<close>. The first
  button that is visible and has a bounding box is clicked. No keyword is looked at. When a
  call after the click is rejected, the flag stays set and the loop goes on to the next
  selector.
\<close>

fun selectButtonLoop ::
  "('w, 'h) driver \<Rightarrow> nat \<Rightarrow> bool \<Rightarrow> selector list \<Rightarrow> ('w, 'h) run \<Rightarrow> bool \<times> ('w, 'h) run" where
  "selectButtonLoop d ticketAmount clicked [] s = (clicked, s)"
| "selectButtonLoop d ticketAmount clicked (selector # rest) s =
     (case isVisibleOrFalse d (Loc (First (Locator selector))) 500 s of
        (False, s1) \<Rightarrow> selectButtonLoop d ticketAmount clicked rest s1
      | (True, s1) \<Rightarrow>
          (case call (BoundingBox (Loc (First (Locator selector))))
                  (pw_boundingBox d (Loc (First (Locator selector))))
                  (logger Info [S ''Found visible button with selector: '', S selector] s1) of
             (Inl e, s2) \<Rightarrow> selectButtonLoop d ticketAmount clicked rest s2
           | (Inr None, s2) \<Rightarrow> selectButtonLoop d ticketAmount clicked rest s2
           | (Inr (Some box), s2) \<Rightarrow>
               (case call (Click (Loc (First (Locator selector))) (Some 5000))
                       (pw_click d (Loc (First (Locator selector))) (Some 5000))
                       (logger Info
                          [S ''Button position: x='', R (box_x box), S '', y='', R (box_y box),
                           S '', w='', R (box_width box), S '', h='', R (box_height box)] s2) of
                  (Inl e, s3) \<Rightarrow> selectButtonLoop d ticketAmount clicked rest s3
                | (Inr u, s3) \<Rightarrow>
                    (case afterSelect d ticketAmount box
                            (logger Success [S ''Clicked on Select button!''] s3) of
                       (Inl e, s4) \<Rightarrow> selectButtonLoop d ticketAmount True rest s4
                     | (Inr u', s4) \<Rightarrow> (True, s4)))))"

text \<open>
  The script of ``Strategy 2'', evaluated in the page: the first \<^verbatim>\<open>button\<close> or
  \<^verbatim>\<open>[role="button"]\<close> element whose inner text includes \<^verbatim>\<open>Select\<close> is clicked, and the value
  says whether there was one.
\<close>

definition clickSelectScript :: string where
  \<open>clickSelectScript = ''click the first button, [role="button"] whose innerText includes Select''\<close>

text \<open>
  The first \<^verbatim>\<open>try\<close> statement. The value \<open>True\<close> stands for \<^verbatim>\<open>return true\<close>; with \<open>False\<close>
  control goes on to the statements after the \<^verbatim>\<open>try\<close>.
\<close>

definition selectButtonApproach ::
  "('w, 'h) driver \<Rightarrow> nat \<Rightarrow> ('w, 'h) run \<Rightarrow> bool \<times> ('w, 'h) run" where
  "selectButtonApproach d ticketAmount s =
     (case andThen (call (WaitForTimeout 300) (pw_waitForTimeout d 300) s) (\<lambda>u s.
             case selectButtonLoop d ticketAmount False selectButtonSelectors
                    (logger Info [S ''Looking for Select button...''] s) of
               (clicked, s) \<Rightarrow>
                 andThen
                   (if \<not> clicked
                    then andThen (call (Evaluate clickSelectScript) (pw_evaluate d clickSelectScript)
                                    (logger Info [S ''Trying JavaScript click approach...''] s))
                           (\<lambda>jsClicked s.
                              if jsClicked
                              then andThen (call (WaitForTimeout 2000) (pw_waitForTimeout d 2000)
                                              (logger Success [S ''Clicked via JavaScript!''] s))
                                     (\<lambda>u s. (Inr True, s))
                              else (Inr False, s))
                    else (Inr True, s))
                   (\<lambda>clicked s.
                      if clicked then (Inr True, setQuantity d ticketAmount s) else (Inr False, s))) of
        (Inl e, s') \<Rightarrow> (False, logger Debug [S ''Select button approach failed: '', S (message e)] s')
      | (Inr returned, s') \<Rightarrow> (returned, s'))"

subsection \<open>The second block: the keywords\<close>

definition selectButtonsSelector :: selector where
  \<open>selectButtonsSelector =
     ''button:has-text("Select"), button:has-text("Pilih"), [class*="select"] button, .btn-select''\<close>

definition ticketSectionsSelector :: selector where
  \<open>ticketSectionsSelector =
     ''[class*="ticket"], [class*="category"], .card, .ticket-row, div:has(button:has-text("Select"))''\<close>

definition sectionSelectSelector :: selector where
  \<open>sectionSelectSelector = ''button:has-text("Select"), button:has-text("Pilih")''\<close>

text \<open>
  The loop over the ticket sections for one keyword. \<open>Inr True\<close> stands for \<^verbatim>\<open>return true\<close>,
  \<open>Inr False\<close> for the end of the loop; a rejection leaves the \<^verbatim>\<open>try\<close> statement. A section
  whose text includes the keyword and a sold-out marker is passed over.
\<close>

fun sectionLoop ::
  "('w, 'h) driver \<Rightarrow> nat \<Rightarrow> string \<Rightarrow> 'h list \<Rightarrow> ('w, 'h) run \<Rightarrow> (error + bool) \<times> ('w, 'h) run" where
  \<open>sectionLoop d ticketAmount keyword [] s = (Inr False, s)\<close>
| \<open>sectionLoop d ticketAmount keyword (sec # rest) s =
     (case call (TextContent (Handle sec)) (pw_textContent d (Handle sec)) s of
        (Inl e, s1) \<Rightarrow> (Inl e, s1)
      | (Inr None, s1) \<Rightarrow> sectionLoop d ticketAmount keyword rest s1
      | (Inr (Some t), s1) \<Rightarrow>
          if t \<noteq> [] \<and> includes_js (toLowerCase t) (toLowerCase keyword)
          then if includes_js (toLowerCase t) ''sold out'' \<or> includes_js (toLowerCase t) ''habis''
               then sectionLoop d ticketAmount keyword rest
                      (logger Warn [S ''Category "'', S keyword, S ''" is SOLD OUT, trying next...''] s1)
               else (case call (QueryIn sec sectionSelectSelector) (pw_queryIn d sec sectionSelectSelector)
                            (logger Success [S ''Found available category: "'', S keyword, S ''"''] s1) of
                       (Inl e, s2) \<Rightarrow> (Inl e, s2)
                     | (Inr None, s2) \<Rightarrow> sectionLoop d ticketAmount keyword rest s2
                     | (Inr (Some selectBtn), s2) \<Rightarrow>
                         andThen (call (Click (Handle selectBtn) None)
                                    (pw_click d (Handle selectBtn) None) s2) (\<lambda>u s.
                         andThen (call (WaitForTimeout 1000) (pw_waitForTimeout d 1000)
                                    (logger Success [S ''Clicked Select button!''] s)) (\<lambda>u s.
                           (Inr True, setQuantity d ticketAmount s))))
          else sectionLoop d ticketAmount keyword rest s1)\<close>

text \<open>The loop over the keywords, in the order of the list.\<close>

fun keywordLoop ::
  "('w, 'h) driver \<Rightarrow> nat \<Rightarrow> string list \<Rightarrow> ('w, 'h) run \<Rightarrow> (error + bool) \<times> ('w, 'h) run" where
  \<open>keywordLoop d ticketAmount [] s = (Inr False, s)\<close>
| \<open>keywordLoop d ticketAmount (keyword # rest) s =
     (case call (QueryAll ticketSectionsSelector) (pw_queryAll d ticketSectionsSelector)
             (logger Info [S ''Searching for category: "'', S keyword, S ''"''] s) of
        (Inl e, s1) \<Rightarrow> (Inl e, s1)
      | (Inr ticketSections, s1) \<Rightarrow>
          (case sectionLoop d ticketAmount keyword ticketSections s1 of
             (Inl e, s2) \<Rightarrow> (Inl e, s2)
           | (Inr True, s2) \<Rightarrow> (Inr True, s2)
           | (Inr False, s2) \<Rightarrow> keywordLoop d ticketAmount rest s2))\<close>

text \<open>
  The second \<^verbatim>\<open>try\<close> statement. When no keyword led to a click, the first of the Select
  buttons is clicked if it is visible.
\<close>

definition keywordApproach ::
  "('w, 'h) driver \<Rightarrow> string list \<Rightarrow> nat \<Rightarrow> ('w, 'h) run \<Rightarrow> bool \<times> ('w, 'h) run" where
  "keywordApproach d categoryKeywords ticketAmount s =
     (case andThen (call (QueryAll selectButtonsSelector) (pw_queryAll d selectButtonsSelector) s)
             (\<lambda>selectButtons s.
                case selectButtons of
                  [] \<Rightarrow> (Inr False, s)
                | firstSelect # others \<Rightarrow>
                    andThen (keywordLoop d ticketAmount categoryKeywords
                               (logger Info
                                  [S ''Found '', N (length selectButtons), S '' Select button(s)''] s))
                      (\<lambda>returned s.
                         if returned then (Inr True, s)
                         else andThen (call (IsVisible (Handle firstSelect) None)
                                         (pw_isVisible d (Handle firstSelect) None)
                                         (logger Warn
                                            [S ''Keyword not matched, clicking first available Select button...'']
                                            s))
                                (\<lambda>visible s.
                                   if visible
                                   then andThen (call (Click (Handle firstSelect) None)
                                                   (pw_click d (Handle firstSelect) None) s) (\<lambda>u s.
                                        andThen (call (WaitForTimeout 1000) (pw_waitForTimeout d 1000)
                                                   (logger Success
                                                      [S ''Clicked first available Select button!''] s))
                                          (\<lambda>u s. (Inr True, setQuantity d ticketAmount s)))
                                   else (Inr False, s)))) of
        (Inl e, s') \<Rightarrow>
          (False, logger Debug [S ''Error with Select button approach: '', S (message e)] s')
      | (Inr returned, s') \<Rightarrow> (returned, s'))"

subsection \<open>The fallback and the whole function\<close>

definition fallbackSelectors :: "selector list" where
  \<open>fallbackSelectors =
     [''button:has-text("Select")'',
      ''button:has-text("Pilih")'',
      ''.btn-primary:has-text("Select")'',
      ''[class*="select"]:not([disabled])'',
      ''button[class*="select"]'',
      ''.ticket-item button'',
      ''.card button'']\<close>

text \<open>The body of the loop over the fallback selectors, inside its \<^verbatim>\<open>try\<close>.\<close>

definition fallbackBody ::
  "('w, 'h) driver \<Rightarrow> nat \<Rightarrow> selector \<Rightarrow> ('w, 'h) run \<Rightarrow> (error + bool) \<times> ('w, 'h) run" where
  "fallbackBody d ticketAmount selector s =
     andThen (call (Query selector) (pw_query d selector) s) (\<lambda>found s.
       case found of
         None \<Rightarrow> (Inr False, s)
       | Some btn \<Rightarrow>
           andThen (call (IsVisible (Handle btn) None) (pw_isVisible d (Handle btn) None) s)
             (\<lambda>visible s.
                if visible
                then andThen (call (Click (Handle btn) None) (pw_click d (Handle btn) None) s) (\<lambda>u s.
                     andThen (call (WaitForTimeout 1000) (pw_waitForTimeout d 1000)
                                (logger Success [S ''Clicked button with selector: '', S selector] s))
                       (\<lambda>u s. (Inr True, setQuantity d ticketAmount s)))
                else (Inr False, s)))"

fun fallbackLoop ::
  "('w, 'h) driver \<Rightarrow> nat \<Rightarrow> selector list \<Rightarrow> ('w, 'h) run \<Rightarrow> bool \<times> ('w, 'h) run" where
  "fallbackLoop d ticketAmount [] s = (False, s)"
| "fallbackLoop d ticketAmount (selector # rest) s =
     (case fallbackBody d ticketAmount selector s of
        (Inl e, s1) \<Rightarrow> fallbackLoop d ticketAmount rest s1
      | (Inr True, s1) \<Rightarrow> (True, s1)
      | (Inr False, s1) \<Rightarrow> fallbackLoop d ticketAmount rest s1)"

text \<open>
  \<^verbatim>\<open>selectCategory\<close>. The first sleep and the query of the buttons are covered by no
  \<^verbatim>\<open>try\<close>. The keywords are looked at only when the first block did not return.
\<close>

definition selectCategory ::
  "('w, 'h) driver \<Rightarrow> string list \<Rightarrow> nat \<Rightarrow> ('w, 'h) run \<Rightarrow> (error + bool) \<times> ('w, 'h) run" where
  "selectCategory d categoryKeywords ticketAmount s =
     andThen (call (WaitForTimeout 2000) (pw_waitForTimeout d 2000)
                (logger Info [S ''Looking for ticket categories...''] s)) (\<lambda>u s.
       case call GetUrl (\<lambda>w. (pw_url d w, w)) s of
         (currentUrl, s) \<Rightarrow>
           andThen (call (QueryAll ''button'') (pw_queryAll d ''button'')
                      (logger Info [S ''Current URL: '', S currentUrl] s)) (\<lambda>allButtons s.
             case selectButtonApproach d ticketAmount
                    (listButtons d 0 (take 10 allButtons)
                      (logger Info
                         [S ''Found '', N (length allButtons), S '' total buttons on page''] s)) of
               (True, s) \<Rightarrow> (Inr True, s)
             | (False, s) \<Rightarrow>
                 (case keywordApproach d categoryKeywords ticketAmount s of
                    (True, s) \<Rightarrow> (Inr True, s)
                  | (False, s) \<Rightarrow>
                      (case fallbackLoop d ticketAmount fallbackSelectors
                              (logger Info [S ''Trying fallback selectors...''] s) of
                         (True, s) \<Rightarrow> (Inr True, s)
                       | (False, s) \<Rightarrow>
                           (Inr False,
                            logger Err [S ''No available ticket categories found!''] s)))))"

section \<open>bot.js: navigateToPayment\<close>

subsection \<open>The checkout loop\<close>

text \<open>
  Strings are byte strings. Three of the messages of \<^verbatim>\<open>navigateToPayment\<close> begin with a
  pictorial sign; the definitions below are the bytes that the source file holds for each of
  them.
\<close>

definition sign_party :: string where
  "sign_party =
     [CHR 0xC3, CHR 0xB0, CHR 0xC5, CHR 0xB8, CHR 0xC5, CHR 0xBD, CHR 0xE2, CHR 0x80, CHR 0xB0]"

definition sign_card :: string where
  "sign_card =
     [CHR 0xC3, CHR 0xB0, CHR 0xC5, CHR 0xB8, CHR 0xE2, CHR 0x80, CHR 0x99, CHR 0xC2, CHR 0xB3]"

definition sign_warning :: string where
  "sign_warning =
     [CHR 0xC3, CHR 0xA2, CHR 0xC5, CHR 0xA1, CHR 0xC2, CHR 0xA0, CHR 0xC3, CHR 0xAF, CHR 0xC2, CHR 0xB8]"

definition paymentSurface :: selector where
  \<open>paymentSurface = ''.payment-method, [class*="payment-option"], [class*="payment-method"]''\<close>

text \<open>
  The \<^verbatim>\<open>for\<close> loop over the next buttons, and the one over the pay buttons: the first
  button that is found visible and not disabled and whose click resolves is reported, and
  the loop is left with \<^verbatim>\<open>clicked = true\<close> (the value \<open>True\<close>) and the click counted. A
  rejection of the query, of a probe or of the click passes on to the next selector.
\<close>

fun clickFirstClickable ::
  "('w, 'h) driver \<Rightarrow> string \<Rightarrow> selector list \<Rightarrow> ('w, 'h) run \<Rightarrow> bool \<times> ('w, 'h) run" where
  "clickFirstClickable d report [] s = (False, s)"
| "clickFirstClickable d report (selector # rest) s =
     (case call (Query selector) (pw_query d selector) s of
        (Inl e, s1) \<Rightarrow> clickFirstClickable d report rest s1
      | (Inr None, s1) \<Rightarrow> clickFirstClickable d report rest s1
      | (Inr (Some button), s1) \<Rightarrow>
          (case call (IsVisible (Handle button) None) (pw_isVisible d (Handle button) None) s1 of
             (Inl e, s2) \<Rightarrow> clickFirstClickable d report rest s2
           | (Inr False, s2) \<Rightarrow> clickFirstClickable d report rest s2
           | (Inr True, s2) \<Rightarrow>
               (case call (IsDisabled (Handle button)) (pw_isDisabled d (Handle button)) s2 of
                  (Inl e, s3) \<Rightarrow> clickFirstClickable d report rest s3
                | (Inr True, s3) \<Rightarrow> clickFirstClickable d report rest s3
                | (Inr False, s3) \<Rightarrow>
                    (case call (Click (Handle button) None) (pw_click d (Handle button) None) s3 of
                       (Inl e, s4) \<Rightarrow> clickFirstClickable d report rest s4
                     | (Inr u, s4) \<Rightarrow> (True, logger Info [S report] s4)))))"

text \<open>
  One pass through the body of the \<^verbatim>\<open>while\<close> loop, and how it ends: the payment surface
  was detected (\<^verbatim>\<open>return true\<close>), one button was clicked (\<^verbatim>\<open>clicked = true\<close> and
  \<^verbatim>\<open>clickCount++\<close>), nothing could be clicked (\<^verbatim>\<open>break\<close>), or the sleep or the query of
  the payment surface, which no \<^verbatim>\<open>try\<close> covers, was rejected.
\<close>

datatype passEnd = Detected | Clicked | NothingClickable | Escaped error

definition checkout_pass :: "('w, 'h) driver \<Rightarrow> ('w, 'h) run \<Rightarrow> passEnd \<times> ('w, 'h) run" where
  "checkout_pass d s =
     (case call (WaitForTimeout 1000) (pw_waitForTimeout d 1000) s of
        (Inl e, s1) \<Rightarrow> (Escaped e, s1)
      | (Inr u, s1) \<Rightarrow>
          (case call (Query paymentSurface) (pw_query d paymentSurface) s1 of
             (Inl e, s2) \<Rightarrow> (Escaped e, s2)
           | (Inr (Some paymentMethods), s2) \<Rightarrow>
               (Detected,
                logger Success
                  [S (sign_party @ '' REACHED PAYMENT PAGE! Please select your payment method manually.'')] s2)
           | (Inr None, s2) \<Rightarrow>
               (case clickFirstClickable d ''Clicked continue/next button'' checkout_nextButton s2 of
                  (True, s3) \<Rightarrow> (Clicked, s3)
                | (False, s3) \<Rightarrow>
                    (case clickFirstClickable d ''Clicked pay button'' checkout_payButton s3 of
                       (True, s4) \<Rightarrow> (Clicked, s4)
                     | (False, s4) \<Rightarrow>
                         (NothingClickable,
                          logger Warn
                            [S ''No clickable buttons found, checking if on payment page...'']
                            s4)))))"

text \<open>
  The loop \<^verbatim>\<open>while (clickCount < maxClicks)\<close>. Its value is how the loop was left, with
  the final \<^verbatim>\<open>clickCount\<close>: \<open>Inr True\<close> for the \<^verbatim>\<open>return true\<close> inside the loop,
  \<open>Inr False\<close> when control goes on to the statements after the loop.
\<close>

function checkout_loop ::
  "('w, 'h) driver \<Rightarrow> nat \<Rightarrow> nat \<Rightarrow> ('w, 'h) run \<Rightarrow> ((error + bool) \<times> nat) \<times> ('w, 'h) run" where
  "checkout_loop d maxClicks clickCount s =
     (if clickCount < maxClicks then
        (case checkout_pass d s of
           (Detected, s') \<Rightarrow> ((Inr True, clickCount), s')
         | (Clicked, s') \<Rightarrow> checkout_loop d maxClicks (clickCount + 1) s'
         | (NothingClickable, s') \<Rightarrow> ((Inr False, clickCount), s')
         | (Escaped e, s') \<Rightarrow> ((Inl e, clickCount), s'))
      else ((Inr False, clickCount), s))"
  by pat_completeness auto
termination
  by (relation "measure (\<lambda>(d, maxClicks, clickCount, s). maxClicks - clickCount)") auto

declare checkout_loop.simps [simp del]

subsection \<open>Selecting the payment method\<close>

definition vaSelectors :: "selector list" where
  \<open>vaSelectors =
     [''div:has(> div:has-text("Virtual Account"))'',
      ''div[class*="accordion"]:has-text("Virtual Account")'',
      ''div[class*="payment"]:has-text("Virtual Account")'',
      ''div[class*="card"]:has-text("Virtual Account")'',
      ''div:has-text("Virtual Account") svg'',
      ''div:has-text("Virtual Account") [class*="chevron"]'',
      ''div:has-text("Virtual Account") [class*="arrow"]'',
      ''text="Virtual Account"'']\<close>

definition bcaSelectors :: "selector list" where
  \<open>bcaSelectors =
     [''text="Virtual Account BCA"'',
      ''div:has-text("Virtual Account BCA")'',
      ''span:has-text("Virtual Account BCA")'',
      ''input[type="radio"] + *:has-text("BCA")'',
      ''label:has-text("Virtual Account BCA")'',
      ''label:has-text("BCA")'',
      ''div:has(img[alt*="BCA"])'',
      ''img[alt*="BCA"]'',
      ''img[src*="bca"]'',
      ''img[src*="BCA"]'']\<close>

text \<open>
  The loop over \<^verbatim>\<open>vaSelectors\<close> and the one over \<^verbatim>\<open>bcaSelectors\<close>, which differ in their
  messages and in the pause after the click. \<open>flag\<close> is \<^verbatim>\<open>vaClicked\<close> or \<^verbatim>\<open>bcaClicked\<close>:
  it is set before the pause, so a rejected pause goes on to the next selector with the
  flag set.
\<close>

fun boxClickLoop ::
  "('w, 'h) driver \<Rightarrow> string \<Rightarrow> string \<Rightarrow> ms \<Rightarrow> bool \<Rightarrow> selector list \<Rightarrow> ('w, 'h) run
     \<Rightarrow> bool \<times> ('w, 'h) run" where
  "boxClickLoop d found clicked pause flag [] s = (flag, s)"
| "boxClickLoop d found clicked pause flag (sel # rest) s =
     (case isVisibleOrFalse d (Loc (First (Locator sel))) 1000 s of
        (False, s1) \<Rightarrow> boxClickLoop d found clicked pause flag rest s1
      | (True, s1) \<Rightarrow>
          (case call (BoundingBox (Loc (First (Locator sel))))
                  (pw_boundingBox d (Loc (First (Locator sel))))
                  (logger Info [S found, S sel] s1) of
             (Inl e, s2) \<Rightarrow> boxClickLoop d found clicked pause flag rest s2
           | (Inr None, s2) \<Rightarrow> boxClickLoop d found clicked pause flag rest s2
           | (Inr (Some box), s2) \<Rightarrow>
               (case call (MouseClick (box_x box + box_width box / 2) (box_y box + box_height box / 2))
                       (pw_mouseClick d (box_x box + box_width box / 2)
                          (box_y box + box_height box / 2)) s2 of
                  (Inl e, s3) \<Rightarrow> boxClickLoop d found clicked pause flag rest s3
                | (Inr u, s3) \<Rightarrow>
                    (case call (WaitForTimeout pause) (pw_waitForTimeout d pause)
                            (logger Success [S clicked] s3) of
                       (Inl e, s4) \<Rightarrow> boxClickLoop d found clicked pause True rest s4
                     | (Inr u', s4) \<Rightarrow> (True, s4)))))"

text \<open>The direct click on the text, tried when no selector of \<^verbatim>\<open>vaSelectors\<close> was clicked.\<close>

definition clickVaText :: "('w, 'h) driver \<Rightarrow> ('w, 'h) run \<Rightarrow> bool \<times> ('w, 'h) run" where
  \<open>clickVaText d s =
     (case call (PageClick ''text="Virtual Account"'') (pw_pageClick d ''text="Virtual Account"'') s of
        (Inl e, s1) \<Rightarrow> (False, logger Warn [S ''Could not find Virtual Account option''] s1)
      | (Inr u, s1) \<Rightarrow>
          (case call (WaitForTimeout 1500) (pw_waitForTimeout d 1500)
                  (logger Success [S ''Clicked on Virtual Account text''] s1) of
             (Inl e, s2) \<Rightarrow> (True, logger Warn [S ''Could not find Virtual Account option''] s2)
           | (Inr u', s2) \<Rightarrow> (True, s2)))\<close>

text \<open>The second visible radio button, tried when no selector of \<^verbatim>\<open>bcaSelectors\<close> was clicked.\<close>

definition clickSecondRadio :: "('w, 'h) driver \<Rightarrow> ('w, 'h) run \<Rightarrow> bool \<times> ('w, 'h) run" where
  \<open>clickSecondRadio d s =
     (case call (All (Locator ''input[type="radio"]:visible''))
             (pw_allOf d (Locator ''input[type="radio"]:visible'')) s of
        (Inl e, s1) \<Rightarrow> (False, logger Warn [S ''Could not find BCA option''] s1)
      | (Inr n, s1) \<Rightarrow>
          if 2 \<le> n then
            (case call (Click (Loc (Nth (Locator ''input[type="radio"]:visible'') 1)) None)
                    (pw_click d (Loc (Nth (Locator ''input[type="radio"]:visible'') 1)) None) s1 of
               (Inl e, s2) \<Rightarrow> (False, logger Warn [S ''Could not find BCA option''] s2)
             | (Inr u, s2) \<Rightarrow> (True, logger Success [S ''Clicked BCA radio by position''] s2))
          else (False, s1))\<close>

text \<open>
  The block ``SELECT VA BCA PAYMENT'': its value is the pair of \<^verbatim>\<open>vaClicked\<close> and
  \<^verbatim>\<open>bcaClicked\<close>. Every awaited call in it lies in an inner \<^verbatim>\<open>try\<close>, so nothing reaches
  the \<^verbatim>\<open>catch\<close> of the block itself.
\<close>

definition selectPayment ::
  "('w, 'h) driver \<Rightarrow> ('w, 'h) run \<Rightarrow> (bool \<times> bool) \<times> ('w, 'h) run" where
  "selectPayment d s =
     (case boxClickLoop d ''Found VA element with: '' ''Clicked on Virtual Account header'' 1500
             False vaSelectors s of
        (va, s1) \<Rightarrow>
          (case (if \<not> va then clickVaText d s1 else (va, s1)) of
             (vaClicked, s2) \<Rightarrow>
               (case boxClickLoop d ''Found BCA element with: '' ''Clicked on Virtual Account BCA''
                       1000 False bcaSelectors s2 of
                  (bca, s3) \<Rightarrow>
                    (case (if \<not> bca then clickSecondRadio d s3 else (bca, s3)) of
                       (bcaClicked, s4) \<Rightarrow> ((vaClicked, bcaClicked), s4)))))"

subsection \<open>The consent checkboxes and the pay button\<close>

definition checkboxes :: locator where
  \<open>checkboxes = Locator ''input[type="checkbox"]:visible''\<close>

fun checkboxLoop :: "('w, 'h) driver \<Rightarrow> nat list \<Rightarrow> ('w, 'h) run \<Rightarrow> ('w, 'h) run" where
  "checkboxLoop d [] s = s"
| "checkboxLoop d (i # rest) s =
     (case call (IsChecked (Loc (Nth checkboxes i))) (pw_isChecked d (Loc (Nth checkboxes i))) s of
        (Inl e, s1) \<Rightarrow> checkboxLoop d rest s1
      | (Inr True, s1) \<Rightarrow> checkboxLoop d rest s1
      | (Inr False, s1) \<Rightarrow>
          (case call (Click (Loc (Nth checkboxes i)) None)
                  (pw_click d (Loc (Nth checkboxes i)) None) s1 of
             (Inl e, s2) \<Rightarrow> checkboxLoop d rest s2
           | (Inr u, s2) \<Rightarrow>
               (case call (WaitForTimeout 200) (pw_waitForTimeout d 200)
                       (logger Success [S ''Checked checkbox '', N (i + 1)] s2) of
                  (r, s3) \<Rightarrow> checkboxLoop d rest s3)))"

definition checkAllCheckboxes :: "('w, 'h) driver \<Rightarrow> ('w, 'h) run \<Rightarrow> ('w, 'h) run" where
  "checkAllCheckboxes d s =
     (case call (All checkboxes) (pw_allOf d checkboxes)
             (logger Info [S ''Looking for checkboxes to check...''] s) of
        (Inl e, s1) \<Rightarrow> logger Warn [S ''Checkbox error: '', S (message e)] s1
      | (Inr n, s1) \<Rightarrow>
          checkboxLoop d [0..<n] (logger Info [S ''Found '', N n, S '' visible checkboxes''] s1))"

definition payNowSelectors :: "selector list" where
  \<open>payNowSelectors =
     [''button:has-text("Pay Now")'',
      ''button:has-text("Bayar Sekarang")'',
      ''button:has-text("Bayar")'',
      ''button:has-text("Process Payment")'',
      ''button:has-text("Confirm")'',
      ''button:has-text("Konfirmasi")'',
      ''button[type="submit"]:visible'',
      ''button.btn-primary:visible'',
      ''button[class*="pay"]:visible'',
      ''button[class*="submit"]:visible'']\<close>

definition isDisabledOrFalse ::
  "('w, 'h) driver \<Rightarrow> 'h target \<Rightarrow> ('w, 'h) run \<Rightarrow> bool \<times> ('w, 'h) run" where
  "isDisabledOrFalse d x s =
     (case call (IsDisabled x) (pw_isDisabled d x) s of
        (Inl e, s') \<Rightarrow> (False, s')
      | (Inr disabled, s') \<Rightarrow> (disabled, s'))"

fun payNowLoop ::
  "('w, 'h) driver \<Rightarrow> bool \<Rightarrow> selector list \<Rightarrow> ('w, 'h) run \<Rightarrow> bool \<times> ('w, 'h) run" where
  "payNowLoop d payNowClicked [] s = (payNowClicked, s)"
| "payNowLoop d payNowClicked (sel # rest) s =
     (case isVisibleOrFalse d (Loc (First (Locator sel))) 1000 s of
        (False, s1) \<Rightarrow> payNowLoop d payNowClicked rest s1
      | (True, s1) \<Rightarrow>
          (case isDisabledOrFalse d (Loc (First (Locator sel))) s1 of
             (True, s2) \<Rightarrow> payNowLoop d payNowClicked rest s2
           | (False, s2) \<Rightarrow>
               (case call (Click (Loc (First (Locator sel))) None)
                       (pw_click d (Loc (First (Locator sel))) None)
                       (logger Info [S ''Found Pay button: '', S sel] s2) of
                  (Inl e, s3) \<Rightarrow> payNowLoop d payNowClicked rest s3
                | (Inr u, s3) \<Rightarrow>
                    (case call (WaitForTimeout 3000) (pw_waitForTimeout d 3000)
                            (logger Success [S ''Clicked Pay Now button!''] s3) of
                       (Inl e, s4) \<Rightarrow> payNowLoop d True rest s4
                     | (Inr u', s4) \<Rightarrow> (True, s4)))))"

definition clickPayNow :: "('w, 'h) driver \<Rightarrow> ('w, 'h) run \<Rightarrow> ('w, 'h) run" where
  "clickPayNow d s =
     (case payNowLoop d False payNowSelectors (logger Info [S ''Looking for Pay Now button...''] s) of
        (payNowClicked, s1) \<Rightarrow>
          if \<not> payNowClicked
          then logger Warn
                 [S ''Could not find Pay Now button - may need to check checkboxes first''] s1
          else s1)"

subsection \<open>Extracting the VA number\<close>

definition TRACKING_IDS :: "string list" where
  "TRACKING_IDS = [''835386638306873'', ''1234567890123456'']"

definition isTrackingId :: "string \<Rightarrow> bool" where
  "isTrackingId num = (if num \<in> set TRACKING_IDS then True else False)"

definition isLikelyVA :: "string \<Rightarrow> bool" where
  "isLikelyVA num =
     (if startsWith num ''62'' \<or> startsWith num ''08'' \<or> startsWith num ''021'' then False
      else if isTrackingId num then False
      else True)"

definition vaLabelSelectors :: "selector list" where
  \<open>vaLabelSelectors =
     [''div:has-text("Virtual Account") >> xpath=following-sibling::*[1]'',
      ''span:has-text("Virtual Account") >> xpath=following-sibling::*[1]'',
      ''label:has-text("Virtual Account") >> xpath=following-sibling::*[1]'',
      ''p:has-text("Nomor VA")'',
      ''div:has-text("Nomor VA")'',
      ''span:has-text("No. Virtual Account")'',
      ''[class*="copy"]:visible'',
      ''button:has-text("Copy"):visible'',
      ''[class*="payment-detail"]:visible'',
      ''[class*="account-number"]:visible'',
      ''[class*="va-number"]:visible'']\<close>

text \<open>
  Step 1, the loop over \<^verbatim>\<open>vaLabelSelectors\<close>. A text content of \<^verbatim>\<open>null\<close> makes
  \<^verbatim>\<open>text.match\<close> throw inside the \<^verbatim>\<open>try\<close>: the loop goes on. The inner loop takes the first
  match that \<open>isLikelyVA\<close> accepts.
\<close>

fun labelLoop ::
  "('w, 'h) driver \<Rightarrow> selector list \<Rightarrow> ('w, 'h) run \<Rightarrow> string option \<times> ('w, 'h) run" where
  "labelLoop d [] s = (None, s)"
| "labelLoop d (sel # rest) s =
     (case isVisibleOrFalse d (Loc (First (Locator sel))) 500 s of
        (False, s1) \<Rightarrow> labelLoop d rest s1
      | (True, s1) \<Rightarrow>
          (case call (TextContent (Loc (First (Locator sel))))
                  (pw_textContent d (Loc (First (Locator sel)))) s1 of
             (Inl e, s2) \<Rightarrow> labelLoop d rest s2
           | (Inr None, s2) \<Rightarrow> labelLoop d rest s2
           | (Inr (Some text), s2) \<Rightarrow>
               (case find isLikelyVA (matchAll False (digitToken 10) text) of
                  Some num \<Rightarrow> (Some num, logger Info [S ''Found potential VA from label: '', S num] s2)
                | None \<Rightarrow> labelLoop d rest s2)))"

definition visibleContainers :: locator where
  \<open>visibleContainers =
     Locator ''main:visible, article:visible, section:visible, [role="main"]:visible, .content:visible''\<close>

text \<open>Step 2, the loop over the visible containers.\<close>

fun containerLoop ::
  "('w, 'h) driver \<Rightarrow> nat list \<Rightarrow> ('w, 'h) run \<Rightarrow> string option \<times> ('w, 'h) run" where
  "containerLoop d [] s = (None, s)"
| "containerLoop d (i # rest) s =
     (case call (TextContent (Loc (Nth visibleContainers i)))
             (pw_textContent d (Loc (Nth visibleContainers i))) s of
        (Inl e, s1) \<Rightarrow> containerLoop d rest s1
      | (Inr None, s1) \<Rightarrow> containerLoop d rest s1
      | (Inr (Some text), s1) \<Rightarrow>
          if includes_js (toLowerCase text) ''virtual account''
             \<or> includes_js (toLowerCase text) ''va ''
             \<or> includes_js (toLowerCase text) ''bca''
             \<or> includes_js (toLowerCase text) ''pembayaran''
          then (case find isLikelyVA (matchAll False (digitToken 12) text) of
                  Some num \<Rightarrow>
                    (Some num, logger Info [S ''Found potential VA from container: '', S num] s1)
                | None \<Rightarrow> containerLoop d rest s1)
          else containerLoop d rest s1)"

text \<open>
  Step 3. The script evaluated in the page walks the text nodes below the body and keeps
  those whose parent element is not a \<^verbatim>\<open>script\<close>, \<^verbatim>\<open>style\<close> or \<^verbatim>\<open>noscript\<close> element and
  has neither \<^verbatim>\<open>display: none\<close> nor \<^verbatim>\<open>visibility: hidden\<close> as its computed style; each
  kept text is followed by a blank. The arguments of \<open>walkText\<close> are the tag name and the
  computed style of the parent element.
\<close>

fun walkText :: "string \<Rightarrow> string \<Rightarrow> string \<Rightarrow> node \<Rightarrow> string" where
  "walkText tag display visibility (Text t) =
     (if toLowerCase tag = ''script'' \<or> toLowerCase tag = ''style'' \<or> toLowerCase tag = ''noscript''
      then []
      else if display = ''none'' \<or> visibility = ''hidden'' then []
      else t @ '' '')"
| "walkText tag display visibility (Element tag' display' visibility' children) =
     concat (map (walkText tag' display' visibility') children)"
| "walkText tag display visibility Other = []"

definition visibleTextOf :: "node \<Rightarrow> string" where
  "visibleTextOf body =
     (case body of
        Element tag display visibility children \<Rightarrow>
          concat (map (walkText tag display visibility) children)
      | Text t \<Rightarrow> []
      | Other \<Rightarrow> [])"

text \<open>
  The loop over the matches of the context pattern: the first match whose digits
  \<open>isLikelyVA\<close> accepts gives the number.
\<close>

fun contextLoop :: "string list \<Rightarrow> string option" where
  "contextLoop [] = None"
| "contextLoop (match # rest) =
     (case matchFirst False digitRun match of
        None \<Rightarrow> contextLoop rest
      | Some num \<Rightarrow> if isLikelyVA num then Some num else contextLoop rest)"

definition bodyTextStep ::
  "('w, 'h) driver \<Rightarrow> ('w, 'h) run \<Rightarrow> (error + string option) \<times> ('w, 'h) run" where
  "bodyTextStep d s =
     andThen (call ReadDocument (pw_document d)
                (logger Info [S ''Searching in body text with strict filtering...''] s))
       (\<lambda>body s1.
          case contextLoop (matchAll True vaContextPattern (visibleTextOf body)) of
            Some num \<Rightarrow> (Inr (Some num), logger Info [S ''Found VA near keyword: '', S num] s1)
          | None \<Rightarrow> (Inr None, s1))"

definition containerStep ::
  "('w, 'h) driver \<Rightarrow> ('w, 'h) run \<Rightarrow> (error + string option) \<times> ('w, 'h) run" where
  "containerStep d s =
     andThen (call (All visibleContainers) (pw_allOf d visibleContainers)
                (logger Info [S ''Looking for VA in visible containers...''] s))
       (\<lambda>n s1. case containerLoop d [0..<n] s1 of (vaNumber, s2) \<Rightarrow> (Inr vaNumber, s2))"

text \<open>
  The \<^verbatim>\<open>try\<close> statement of ``EXTRACT VA NUMBER''. A rejection in step 2 or step 3 reaches
  its \<^verbatim>\<open>catch\<close>, where \<^verbatim>\<open>vaNumber\<close> is still \<^verbatim>\<open>null\<close>.
\<close>

definition extractVA :: "('w, 'h) driver \<Rightarrow> ('w, 'h) run \<Rightarrow> string option \<times> ('w, 'h) run" where
  "extractVA d s =
     (case labelLoop d vaLabelSelectors s of
        (Some num, s1) \<Rightarrow> (Some num, s1)
      | (None, s1) \<Rightarrow>
          (case containerStep d s1 of
             (Inl e, s2) \<Rightarrow> (None, logger Warn [S ''VA extraction error: '', S (message e)] s2)
           | (Inr (Some num), s2) \<Rightarrow> (Some num, s2)
           | (Inr None, s2) \<Rightarrow>
               (case bodyTextStep d s2 of
                  (Inl e, s3) \<Rightarrow> (None, logger Warn [S ''VA extraction error: '', S (message e)] s3)
                | (Inr vaNumber, s3) \<Rightarrow> (vaNumber, s3))))"

subsection \<open>The final report and the whole function\<close>

definition finalResult ::
  "('w, 'h) driver \<Rightarrow> string option \<Rightarrow> bool \<Rightarrow> bool \<Rightarrow> ('w, 'h) run
     \<Rightarrow> (error + bool) \<times> ('w, 'h) run" where
  "finalResult d vaNumber vaClicked bcaClicked s =
     (case vaNumber of
        Some num \<Rightarrow>
          (case call GetUrl (\<lambda>w. (pw_url d w, w))
                  (logger Success [S (replicate 60 CHR ''='')]
                    (logger Success [S (sign_card @ '' VA BCA NUMBER: ''), S num]
                      (logger Success [S (sign_party @ sign_party @ sign_party @ '' PAYMENT READY! ''
                                         @ sign_party @ sign_party @ sign_party)]
                        (logger Success [S (replicate 60 CHR ''='')] s)))) of
             (event, s1) \<Rightarrow>
               andThen
                 (call (WriteFile ''last_va_number.txt''
                          [S ''VA BCA: '', S num, S (CHR 0x0A # ''Time: ''), Now,
                           S (CHR 0x0A # ''Event: ''), S event])
                    (fs_writeFileSync d ''last_va_number.txt''
                          [S ''VA BCA: '', S num, S (CHR 0x0A # ''Time: ''), Now,
                           S (CHR 0x0A # ''Event: ''), S event]) s1)
                 (\<lambda>u s2. (Inr True,
                            logger Info [S ''VA number saved to: '', S ''last_va_number.txt''] s2)))
      | None \<Rightarrow>
          if vaClicked \<and> bcaClicked
          then (Inr True,
                logger Info [S ''Bot could not auto-extract VA. Please check the browser window.'']
                  (logger Success [S (sign_party @ '' VA BCA selected! Check browser for VA number.'')] s))
          else (Inr True,
                logger Warn [S (sign_warning @ '' Payment flow may not be complete. Please check browser.'')] s))"

text \<open>
  The statements after the checkout loop. The sleeps between the blocks, and the writing of
  the result file, are not covered by any \<^verbatim>\<open>try\<close>.
\<close>

definition countPaymentTexts :: "('w, 'h) driver \<Rightarrow> ('w, 'h) run \<Rightarrow> ('w, 'h) run" where
  "countPaymentTexts d s =
     (case call (All (Locator ''text=/Payment|Virtual|Account|BCA/i''))
             (pw_allOf d (Locator ''text=/Payment|Virtual|Account|BCA/i'')) s of
        (Inl e, s1) \<Rightarrow> s1
      | (Inr n, s1) \<Rightarrow> logger Info [S ''Found '', N n, S '' payment-related text elements''] s1)"

definition paymentPhase ::
  "('w, 'h) driver \<Rightarrow> ('w, 'h) run \<Rightarrow> (error + bool) \<times> ('w, 'h) run" where
  "paymentPhase d s =
     andThen (call (WaitForTimeout 3000) (pw_waitForTimeout d 3000)
                (logger Info [S ''Waiting for payment page to load...''] s))
       (\<lambda>u s1.
          case call GetUrl (\<lambda>w. (pw_url d w, w)) s1 of
            (currentUrl, s2) \<Rightarrow>
              (case selectPayment d
                      (logger Info [S ''Looking for payment method selection...'']
                        (countPaymentTexts d (logger Info [S ''Current URL: '', S currentUrl] s2))) of
                 ((vaClicked, bcaClicked), s3) \<Rightarrow>
                   andThen (call (WaitForTimeout 2000) (pw_waitForTimeout d 2000) s3)
                     (\<lambda>u s4.
                        andThen (call (WaitForTimeout 500) (pw_waitForTimeout d 500)
                                   (checkAllCheckboxes d s4))
                          (\<lambda>u s5.
                             andThen (call (WaitForTimeout 3000) (pw_waitForTimeout d 3000)
                                        (logger Info [S ''Waiting for VA number to appear...'']
                                          (clickPayNow d s5)))
                               (\<lambda>u s6.
                                  case extractVA d s6 of
                                    (vaNumber, s7) \<Rightarrow>
                                      finalResult d vaNumber vaClicked bcaClicked s7)))))"

definition navigateToPayment ::
  "('w, 'h) driver \<Rightarrow> ('w, 'h) run \<Rightarrow> (error + bool) \<times> ('w, 'h) run" where
  "navigateToPayment d s =
     (case checkout_loop d 5 0 (logger Info [S ''Navigating to payment page...''] s) of
        ((Inl e, clickCount), s1) \<Rightarrow> (Inl e, s1)
      | ((Inr True, clickCount), s1) \<Rightarrow> (Inr True, s1)
      | ((Inr False, clickCount), s1) \<Rightarrow> paymentPhase d s1)"

section \<open>Notions used to state the properties of the resolver\<close>



section \<open>Notions used to state the properties of the poller\<close>

text \<open>
  \<open>foundReady d selectors button s'\<close>: the run \<open>s'\<close> ends with a query of one of the
  selectors that resolved to \<open>button\<close>, followed by the two probes of that button, which
  reported it not disabled and visible, and by the success message.
\<close>

definition foundReady ::
  "('w, 'h) driver \<Rightarrow> selector list \<Rightarrow> 'h \<Rightarrow> ('w, 'h) run \<Rightarrow> bool" where
  "foundReady d selectors button s' =
     (\<exists>selector w1 w2 w3 tr n.
        selector \<in> set selectors
        \<and> pw_query d selector w1 = (Inr (Some button), w2)
        \<and> pw_isDisabled d (Handle button) w2 = (Inr False, w3)
        \<and> pw_isVisible d (Handle button) None w3 = (Inr True, fst s')
        \<and> snd s' = tr @ [Query selector, IsDisabled (Handle button),
                           IsVisible (Handle button) None,
                           Log Success [S ''Buy button found after '', N n, S '' iterations!'']])"

text \<open>The actions of a pass through the loop body while the location is a queue location.\<close>

definition gatedPass :: "ms \<Rightarrow> nat \<Rightarrow> 'h action list" where
  "gatedPass pollInterval iterations =
     GetUrl #
     (if iterations mod 50 = 1
      then [Log Queue [S ''In waiting room - staying patient, NOT refreshing...'']] else [])
     @ [WaitForTimeout pollInterval]"

text \<open>
  \<open>pollEnd d pollInterval result s'\<close>: what the result of a finished call of
  \<open>waitForBuyButton\<close> can be. A returned button was found ready on the last pass; an
  escaping error is a rejection of the sleep between two passes (the session was closed
  under the run); \<^verbatim>\<open>undefined\<close> is not a result.
\<close>

definition pollEnd :: "('w, 'h) driver \<Rightarrow> ms \<Rightarrow> 'h pollResult \<Rightarrow> ('w, 'h) run \<Rightarrow> bool" where
  "pollEnd d pollInterval result s' =
     (case result of
        Returned button \<Rightarrow> foundReady d event_buyButton button s'
      | Threw e \<Rightarrow> (\<exists>w w'. pw_waitForTimeout d pollInterval w = (Inl e, w'))
      | Undefined \<Rightarrow> False)"

text \<open>
  A site that never puts the ticket on sale: it keeps the visitor in the queue for ever, or
  no query ever resolves to an element. And a session in which the sleep always resolves.
\<close>

definition neverOnSale :: "('w, 'h) driver \<Rightarrow> bool" where
  "neverOnSale d =
     ((\<forall>w. isWaitingRoom (pw_url d w))
      \<or> (\<forall>selector w. \<exists>w'. pw_query d selector w = (Inr None, w')
                              \<or> (\<exists>e. pw_query d selector w = (Inl e, w'))))"

definition sleepsWell :: "('w, 'h) driver \<Rightarrow> ms \<Rightarrow> bool" where
  "sleepsWell d pollInterval = (\<forall>w. \<exists>w'. pw_waitForTimeout d pollInterval w = (Inr (), w'))"

section \<open>Notions used to state the properties of the form filler\<close>

text \<open>
  \<open>silent tr\<close>: no action of \<open>tr\<close> is a message of level success. \<open>quietly s s'\<close>: the run
  \<open>s'\<close> continues \<open>s\<close> by actions that are silent in this sense.
\<close>

definition silent :: "'h action list \<Rightarrow> bool" where
  "silent tr = list_all (\<lambda>a. case a of Log lvl msg \<Rightarrow> lvl \<noteq> Success | _ \<Rightarrow> True) tr"

definition quietly :: "('w, 'h) run \<Rightarrow> ('w, 'h) run \<Rightarrow> bool" where
  "quietly s s' = (\<exists>q. snd s' = snd s @ q \<and> silent q)"

text \<open>
  \<open>phoneVerdict d phone s s'\<close>: the run \<open>s'\<close> continues \<open>s\<close> silently up to the point where
  the phone has been typed into one of the inputs and the value \<open>newValue\<close> has been read
  back, and then ends with one message: of level success when \<open>newValue\<close> is the phone or
  the phone without its leading zero, the warning that shows \<open>newValue\<close> otherwise.
\<close>

definition phoneVerdict ::
  "('w, 'h) driver \<Rightarrow> string \<Rightarrow> ('w, 'h) run \<Rightarrow> ('w, 'h) run \<Rightarrow> bool" where
  "phoneVerdict d phone s s' =
     (\<exists>i s1 s2 newValue.
        quietly s s2
        \<and> typePhone d phone (Loc (Nth phoneInputs i)) s1 = (Inr newValue, s2)
        \<and> fst s' = fst s2
        \<and> snd s' = snd s2 @
             [if newValue = phone \<or> newValue = replaceLeadingZero phone
              then Log Success [S ''Filled Phone (input '', N (i + 1), S ''): '',
                                S (take 8 newValue), S ''...'']
              else Log Warn [S ''Phone value after type: '', S newValue]])"

text \<open>\<open>isInputValue a\<close>: the action \<open>a\<close> reads the value of an input back.\<close>

definition isInputValue :: "'h action \<Rightarrow> bool" where
  "isInputValue a = (case a of InputValue x \<Rightarrow> True | _ \<Rightarrow> False)"

section \<open>Notions used to state the properties of the checkout\<close>



text \<open>\<open>isClick a\<close>: the action \<open>a\<close> is a call of \<^verbatim>\<open>click()\<close> on an element.\<close>

definition isClick :: "'h action \<Rightarrow> bool" where
  "isClick a = (case a of Click x t \<Rightarrow> True | _ \<Rightarrow> False)"




section \<open>Notions used to state the properties of navigateToPayment\<close>

text \<open>
  \<open>uncaughtResolve d\<close>: the calls of \<open>navigateToPayment\<close> that no \<^verbatim>\<open>try\<close> covers (the sleeps,
  the query of the payment surface, the writing of the result file) never reject.
\<close>

definition uncaughtResolve :: "('w, 'h) driver \<Rightarrow> bool" where
  "uncaughtResolve d =
     ((\<forall>t w. \<exists>w'. pw_waitForTimeout d t w = (Inr (), w'))
      \<and> (\<forall>w. \<exists>q w'. pw_query d paymentSurface w = (Inr q, w'))
      \<and> (\<forall>file content w. \<exists>w'. fs_writeFileSync d file content w = (Inr (), w')))"

text \<open>The two ways a call that returns a truth value can end without returning \<^verbatim>\<open>false\<close>.\<close>

definition trueOrThrows :: "(error + bool) \<times> 's \<Rightarrow> bool" where
  "trueOrThrows r = (fst r = Inr True \<or> (\<exists>e. fst r = Inl e))"

definition returnsTrue :: "(error + bool) \<times> 's \<Rightarrow> bool" where
  "returnsTrue r = (fst r = Inr True)"

section \<open>Notions used to state the properties of the extraction\<close>

text \<open>A string of \<open>lo\<close> to \<open>hi\<close> digits.\<close>

definition digitString :: "nat \<Rightarrow> nat \<Rightarrow> string \<Rightarrow> bool" where
  "digitString lo hi num = (list_all isDigit num \<and> lo \<le> length num \<and> length num \<le> hi)"

text \<open>
  Where an extracted number can come from. \<open>fromLabel\<close>: a token of 10 to 16 digits of the
  text content of the first element of one of the label selectors, which was reported
  visible. \<open>fromContainer\<close>: a token of 12 to 16 digits of the text content of one of the
  visible containers, which contains a payment keyword. \<open>fromBody\<close>: the digits of a match
  of the context pattern (a payment keyword, colons or white space, 10 to 16 digits) in
  the text that the walker collected from the document.
\<close>

definition fromLabel :: "('w, 'h) driver \<Rightarrow> string \<Rightarrow> bool" where
  "fromLabel d num =
     (\<exists>sel w w1 w2 text.
        sel \<in> set vaLabelSelectors
        \<and> pw_isVisible d (Loc (First (Locator sel))) (Some 500) w = (Inr True, w1)
        \<and> pw_textContent d (Loc (First (Locator sel))) w1 = (Inr (Some text), w2)
        \<and> num \<in> set (matchAll False (digitToken 10) text))"

definition fromContainer :: "('w, 'h) driver \<Rightarrow> string \<Rightarrow> bool" where
  "fromContainer d num =
     (\<exists>i w w1 text.
        pw_textContent d (Loc (Nth visibleContainers i)) w = (Inr (Some text), w1)
        \<and> (includes_js (toLowerCase text) ''virtual account''
             \<or> includes_js (toLowerCase text) ''va ''
             \<or> includes_js (toLowerCase text) ''bca''
             \<or> includes_js (toLowerCase text) ''pembayaran'')
        \<and> num \<in> set (matchAll False (digitToken 12) text))"

definition fromBody :: "('w, 'h) driver \<Rightarrow> string \<Rightarrow> bool" where
  "fromBody d num =
     (\<exists>w w1 body match.
        pw_document d w = (Inr body, w1)
        \<and> match \<in> set (matchAll True vaContextPattern (visibleTextOf body))
        \<and> matchFirst False digitRun match = Some num)"

text \<open>
  The text of the page that is rendered, as the specification speaks of it: the text nodes
  that lie in no \<^verbatim>\<open>script\<close>, \<^verbatim>\<open>style\<close> or \<^verbatim>\<open>noscript\<close> element and in no element that is
  not displayed, and whose parent element is not invisible. (The computed \<^verbatim>\<open>visibility\<close> of
  an element accounts for its ancestors; its computed \<^verbatim>\<open>display\<close> does not.) The first
  argument says whether an ancestor already takes the node out of the rendering.
\<close>

fun renderedText :: "bool \<Rightarrow> string \<Rightarrow> node \<Rightarrow> string" where
  "renderedText gone visibility (Text t) =
     (if gone \<or> visibility = ''hidden'' then [] else t @ '' '')"
| "renderedText gone visibility (Element tag' display' visibility' children) =
     concat (map (renderedText
                    (gone \<or> toLowerCase tag' = ''script'' \<or> toLowerCase tag' = ''style''
                       \<or> toLowerCase tag' = ''noscript'' \<or> display' = ''none'')
                    visibility') children)"
| "renderedText gone visibility Other = []"

definition renderedTextOf :: "node \<Rightarrow> string" where
  "renderedTextOf body = renderedText False ''visible'' body"

section \<open>Example sessions\<close>

text \<open>
  A session whose state is the number of driver calls answered so far and whose handles
  are numbers. \<open>idle\<close> is a page on which nothing is found; the examples override the calls
  they need.
\<close>

definition idle :: "(nat, nat) driver" where
  "idle =
     \<lparr> pw_url = (\<lambda>w. ''https://www.loket.com/event/konser''),
       pw_waitForTimeout = (\<lambda>t w. (Inr (), Suc w)),
       pw_query = (\<lambda>selector w. (Inr None, Suc w)),
       pw_queryAll = (\<lambda>selector w. (Inr [], Suc w)),
       pw_queryIn = (\<lambda>h selector w. (Inr None, Suc w)),
       pw_waitForSelector = (\<lambda>selector t state w. (Inl (Error ''Timeout exceeded''), Suc w)),
       pw_isVisible = (\<lambda>x t w. (Inr False, Suc w)),
       pw_isDisabled = (\<lambda>x w. (Inr False, Suc w)),
       pw_isChecked = (\<lambda>x w. (Inr False, Suc w)),
       pw_click = (\<lambda>x t w. (Inr (), Suc w)),
       pw_pageClick = (\<lambda>selector w. (Inl (Error ''Timeout exceeded''), Suc w)),
       pw_mouseClick = (\<lambda>x y w. (Inr (), Suc w)),
       pw_boundingBox = (\<lambda>x w. (Inr None, Suc w)),
       pw_textContent = (\<lambda>x w. (Inr None, Suc w)),
       pw_getAttribute = (\<lambda>x a w. (Inr None, Suc w)),
       pw_inputValue = (\<lambda>x w. (Inr [], Suc w)),
       pw_fill = (\<lambda>x v w. (Inr (), Suc w)),
       pw_typeText = (\<lambda>x v t w. (Inr (), Suc w)),
       pw_count = (\<lambda>l w. (Inr 0, Suc w)),
       pw_allOf = (\<lambda>l w. (Inr 0, Suc w)),
       pw_evaluate = (\<lambda>script w. (Inr False, Suc w)),
       pw_document = (\<lambda>w. (Inr (Element ''BODY'' ''block'' ''visible'' []), Suc w)),
       fs_writeFileSync = (\<lambda>file content w. (Inr (), Suc w)) \<rparr>"


text \<open>
  The site holds the visitor in its queue until the 6th driver call has been answered;
  from then on the fourth buy-button selector resolves to element 5, enabled and visible.
\<close>

definition saleDemo :: "(nat, nat) driver" where
  "saleDemo =
     idle \<lparr> pw_url := (\<lambda>w. if w < 2 then ''https://www.loket.com/Antrean/konser''
                            else ''https://www.loket.com/event/konser''),
            pw_query := (\<lambda>selector w.
              (if selector = ''.btn-buy-ticket'' \<and> 6 \<le> w then Inr (Some 5) else Inr None, Suc w)),
            pw_isVisible := (\<lambda>x t w. (Inr True, Suc w)) \<rparr>"

text \<open>The site never lets the visitor out of its queue.\<close>

definition queueDemo :: "(nat, nat) driver" where
  "queueDemo = idle \<lparr> pw_url := (\<lambda>w. ''https://www.loket.com/queue/konser'') \<rparr>"

text \<open>
  A form with three visible text inputs; the third has no name and is empty. The page
  stores what is typed into a numeric field without its leading zero (\<open>stripDemo\<close>), or
  stores something else (\<open>mangleDemo\<close>).
\<close>

definition stripDemo :: "(nat, nat) driver" where
  "stripDemo =
     idle \<lparr> pw_allOf := (\<lambda>l w. (Inr 3, Suc w)),
            pw_getAttribute := (\<lambda>x a w.
              (if x = Loc (Nth phoneInputs 2) then Inr None else Inr (Some ''firstname''), Suc w)),
            pw_inputValue := (\<lambda>x w.
              (if x = Loc (Nth phoneInputs 2) \<and> 7 \<le> w then Inr ''8123456789''
               else if x = Loc (Nth phoneInputs 2) then Inr [] else Inr ''Budi'', Suc w)) \<rparr>"

definition mangleDemo :: "(nat, nat) driver" where
  "mangleDemo =
     stripDemo \<lparr> pw_inputValue := (\<lambda>x w.
              (if x = Loc (Nth phoneInputs 2) \<and> 7 \<le> w then Inr ''812345''
               else if x = Loc (Nth phoneInputs 2) then Inr [] else Inr ''Budi'', Suc w)) \<rparr>"

text \<open>
  \<open>maskDemo\<close>: a form whose phone input is found by the selector \<^verbatim>\<open>input[name="phone"]\<close> and
  keeps the value \<^verbatim>\<open>8123\<close> whatever is filled in; there is no other input. \<open>budi\<close> is the
  configured personal data.
\<close>

definition maskDemo :: "(nat, nat) driver" where
  \<open>maskDemo =
     idle \<lparr> pw_isVisible := (\<lambda>x t w.
              (Inr (x = Loc (First (Locator ''input[name="phone"]''))), Suc w)),
            pw_inputValue := (\<lambda>x w.
              (if x = Loc (First (Locator ''input[name="phone"]'')) then Inr ''8123'' else Inr [],
               Suc w)) \<rparr>\<close>

definition budi :: personalData where
  "budi = \<lparr> pd_name = ''Budi Santoso'', pd_nik = ''3201234567890001'',
             pd_email = ''budi@example.com'', pd_phone = ''08123456789'' \<rparr>"

text \<open>
  A session whose state is the list of the elements that were clicked, in order. \<open>still\<close> is
  a page on which nothing is found and every call resolves.
\<close>

definition still :: "(nat list, nat) driver" where
  "still =
     \<lparr> pw_url = (\<lambda>w. ''https://www.loket.com/event/konser''),
       pw_waitForTimeout = (\<lambda>t w. (Inr (), w)),
       pw_query = (\<lambda>selector w. (Inr None, w)),
       pw_queryAll = (\<lambda>selector w. (Inr [], w)),
       pw_queryIn = (\<lambda>h selector w. (Inr None, w)),
       pw_waitForSelector = (\<lambda>selector t state w. (Inr None, w)),
       pw_isVisible = (\<lambda>x t w. (Inr False, w)),
       pw_isDisabled = (\<lambda>x w. (Inr False, w)),
       pw_isChecked = (\<lambda>x w. (Inr False, w)),
       pw_click = (\<lambda>x t w. (Inr (), w)),
       pw_pageClick = (\<lambda>selector w. (Inr (), w)),
       pw_mouseClick = (\<lambda>x y w. (Inr (), w)),
       pw_boundingBox = (\<lambda>x w. (Inr None, w)),
       pw_textContent = (\<lambda>x w. (Inr None, w)),
       pw_getAttribute = (\<lambda>x a w. (Inr None, w)),
       pw_inputValue = (\<lambda>x w. (Inr [], w)),
       pw_fill = (\<lambda>x v w. (Inr (), w)),
       pw_typeText = (\<lambda>x v t w. (Inr (), w)),
       pw_count = (\<lambda>l w. (Inr 0, w)),
       pw_allOf = (\<lambda>l w. (Inr 0, w)),
       pw_evaluate = (\<lambda>script w. (Inr False, w)),
       pw_document = (\<lambda>w. (Inr (Element ''BODY'' ''block'' ''visible'' []), w)),
       fs_writeFileSync = (\<lambda>file content w. (Inr (), w)) \<rparr>"

text \<open>
  \<open>shopDemo\<close>: an event page with two ticket sections, in this order: element 11, the
  category VIP, with the Select button 1, and element 12, the category Festival, with the
  Select button 2. Both buttons are visible; the first element that has the text
  \<^verbatim>\<open>Select\<close> is button 1. No dropdown, no proceed button and no quantity input appear.
\<close>

definition shopDemo :: "(nat list, nat) driver" where
  \<open>shopDemo =
     still \<lparr> pw_queryAll := (\<lambda>selector w.
               (if selector = ticketSectionsSelector then Inr [11, 12] else Inr [1, 2], w)),
             pw_queryIn := (\<lambda>h selector w.
               (if h = 11 then Inr (Some 1) else if h = 12 then Inr (Some 2) else Inr None, w)),
             pw_textContent := (\<lambda>x w.
               (if x = Handle 11 then Inr (Some ''VIP Rp 2.500.000 Select'')
                else if x = Handle 12 then Inr (Some ''Festival Rp 750.000 Select'')
                else Inr (Some ''Select''), w)),
             pw_isVisible := (\<lambda>x t w.
               (Inr (x = Handle 1 \<or> x = Handle 2
                     \<or> x = Loc (First (Locator ''button:has-text("Select")''))), w)),
             pw_boundingBox := (\<lambda>x w.
               (Inr (Some \<lparr> box_x = 640, box_y = 300, box_width = 120, box_height = 40 \<rparr>), w)),
             pw_count := (\<lambda>l w. (Inr 9, w)),
             pw_click := (\<lambda>x t w.
               (Inr (),
                w @ [case x of Handle h \<Rightarrow> h
                     | Loc l \<Rightarrow> if l = First (Locator ''button:has-text("Select")'') then 1 else 0])) \<rparr>\<close>

text \<open>
  \<open>surfaceDemo\<close>: the payment surface is on the page. \<open>clickDemo\<close>: the page always shows a
  clickable \<open>.btn-next\<close> button (element 4) and never a payment surface.
\<close>

definition surfaceDemo :: "(nat, nat) driver" where
  "surfaceDemo =
     idle \<lparr> pw_query := (\<lambda>selector w.
              (if selector = paymentSurface then Inr (Some 9) else Inr None, Suc w)) \<rparr>"



text \<open>\<open>closedDemo\<close>: the page has been closed under the run, and every sleep is rejected.\<close>

definition closedDemo :: "(nat, nat) driver" where
  "closedDemo =
     idle \<lparr> pw_waitForTimeout := (\<lambda>t w.
              (Inl (Error ''Target page, context or browser has been closed''), Suc w)) \<rparr>"

text \<open>
  \<open>vaDemo\<close>: no labelled element and no container is visible, and the body holds a script
  with a tracking identifier, the excluded identifier \<open>1234567890123456\<close> after a keyword, a
  14-digit number after ``Virtual Account'', and a number in a paragraph that is not
  displayed.
\<close>

definition vaBody :: node where
  "vaBody =
     Element ''BODY'' ''block'' ''visible''
       [Element ''SCRIPT'' ''block'' ''visible'' [Text ''fbq(init, 835386638306873)''],
        Element ''P'' ''none'' ''visible'' [Text ''rekening 77777777777777''],
        Element ''DIV'' ''block'' ''visible'' [Text ''Nomor VA: 1234567890123456''],
        Element ''DIV'' ''block'' ''visible''
          [Element ''SPAN'' ''inline'' ''visible'' [Text ''Virtual Account''],
           Text ''39012345678901'']]"

definition vaDemo :: "(nat, nat) driver" where
  "vaDemo = idle \<lparr> pw_document := (\<lambda>w. (Inr vaBody, Suc w)) \<rparr>"

text \<open>
  \<open>hiddenDemo\<close>: the only number on the page stands in a dialog that is not displayed; the
  text nodes of the dialog lie in \<open>span\<close> elements, whose own computed \<^verbatim>\<open>display\<close> is
  \<open>inline\<close>.
\<close>

definition hiddenBody :: node where
  "hiddenBody =
     Element ''BODY'' ''block'' ''visible''
       [Element ''H1'' ''block'' ''visible'' [Text ''Pilih metode pembayaran''],
        Element ''DIV'' ''none'' ''visible''
          [Element ''SPAN'' ''inline'' ''visible'' [Text ''Virtual Account''],
           Element ''SPAN'' ''inline'' ''visible'' [Text ''39012345678901'']]]"

definition hiddenDemo :: "(nat, nat) driver" where
  "hiddenDemo = idle \<lparr> pw_document := (\<lambda>w. (Inr hiddenBody, Suc w)) \<rparr>"

section \<open>Properties of the strings\<close>

lemma startsWith_iff: "startsWith s p \<longleftrightarrow> (\<exists>suf. s = p @ suf)"
  by (induction s p rule: startsWith.induct) auto

lemma includes_js_iff: "includes_js s p \<longleftrightarrow> (\<exists>pre suf. s = pre @ p @ suf)"
proof (induction s)
  case Nil
  then show ?case by auto
next
  case (Cons c cs)
  show ?case
  proof
    assume "includes_js (c # cs) p"
    then consider "startsWith (c # cs) p" | "includes_js cs p" by auto
    then show "\<exists>pre suf. c # cs = pre @ p @ suf"
    proof cases
      case 1
      then obtain suf where "c # cs = p @ suf" by (auto simp: startsWith_iff)
      then have "c # cs = [] @ p @ suf" by simp
      then show ?thesis by blast
    next
      case 2
      then obtain pre suf where "cs = pre @ p @ suf" using Cons.IH by auto
      then have "c # cs = (c # pre) @ p @ suf" by simp
      then show ?thesis by blast
    qed
  next
    assume "\<exists>pre suf. c # cs = pre @ p @ suf"
    then obtain pre suf where e: "c # cs = pre @ p @ suf" by blast
    show "includes_js (c # cs) p"
    proof (cases pre)
      case Nil
      with e have "startsWith (c # cs) p" by (auto simp: startsWith_iff)
      then show ?thesis by simp
    next
      case (Cons a pre')
      with e have "cs = pre' @ p @ suf" by simp
      then have "includes_js cs p" using Cons.IH by blast
      then show ?thesis by simp
    qed
  qed
qed

section \<open>The locator resolver\<close>




text \<open>
  C9. With an empty candidate list \<open>findElement\<close> returns null and \<open>elementExists\<close> returns
  false, neither throws, and the run is unchanged: no driver call is made, so nothing is
  waited for.
\<close>

theorem empty_candidates_not_found:
  "findElement d (Many []) options s = (Inr None, s)
   \<and> elementExists d (Many []) s = (Inr False, s)"
  by (simp add: findElement_def elementExists_def selectorsOf_def)

section \<open>The queue gate\<close>

text \<open>
  C3. \<open>isWaitingRoom\<close> is a function of the location string alone. It holds exactly when
  the lower-cased location contains one of the four markers \<open>waiting-room\<close>, \<open>queue\<close>,
  \<open>antrean\<close>, \<open>antrian\<close>; hence two locations that differ only in letter case are
  classified alike.
\<close>

theorem isWaitingRoom_marker_match:
  "isWaitingRoom url =
     (\<exists>pattern \<in> set [''waiting-room'', ''queue'', ''antrean'', ''antrian''].
        \<exists>pre suf. toLowerCase url = pre @ pattern @ suf)
   \<and> (toLowerCase url' = toLowerCase url \<longrightarrow> isWaitingRoom url' = isWaitingRoom url)"
  by (simp add: isWaitingRoom_def waitingRoom_urlPatterns_def includes_js_iff list_ex_iff)

theorem isWaitingRoom_marker_match_witness:
  "toLowerCase ''https://Loket.com/ANTREAN/x9'' = toLowerCase ''https://loket.com/antrean/x9''
   \<and> isWaitingRoom ''https://Loket.com/ANTREAN/x9''
   \<and> isWaitingRoom ''https://loket.com/antrean/x9''
   \<and> \<not> isWaitingRoom ''https://loket.com/event/x9''"
proof -
  have low: "toLowerCase ''https://Loket.com/ANTREAN/x9'' = toLowerCase ''https://loket.com/antrean/x9''"
    by code_simp
  have g: "isWaitingRoom ''https://loket.com/antrean/x9''" by code_simp
  have n: "\<not> isWaitingRoom ''https://loket.com/event/x9''" by code_simp
  from isWaitingRoom_marker_match [of "''https://loket.com/antrean/x9''" "''https://Loket.com/ANTREAN/x9''"] low g
  have "isWaitingRoom ''https://Loket.com/ANTREAN/x9''" by blast
  with low g n show ?thesis by blast
qed

section \<open>The availability poller\<close>


lemma scanBuyButton_found:
  "scanBuyButton d iterations selectors s = (Some button, s')
     \<Longrightarrow> foundReady d selectors button s'"
proof (induction selectors arbitrary: s)
  case Nil
  then show ?case by simp
next
  case (Cons selector rest)
  have weaken: "foundReady d (selector # rest) button s'" if "foundReady d rest button s'"
    using that unfolding foundReady_def by (metis list.set_intros(2))
  obtain q w1 where q: "pw_query d selector (fst s) = (q, w1)"
    by (cases "pw_query d selector (fst s)")
  let ?s1 = "(w1, snd s @ [Query selector])"
  have c1: "call (Query selector) (pw_query d selector) s = (q, ?s1)"
    by (simp add: call_def q)
  show ?case
  proof (cases q)
    case (Inl e)
    with Cons.prems c1 have "scanBuyButton d iterations rest ?s1 = (Some button, s')" by simp
    then show ?thesis by (rule weaken [OF Cons.IH])
  next
    case (Inr found)
    show ?thesis
    proof (cases found)
      case None
      with Inr Cons.prems c1 have "scanBuyButton d iterations rest ?s1 = (Some button, s')" by simp
      then show ?thesis by (rule weaken [OF Cons.IH])
    next
      case (Some b)
      obtain q2 w2 where q2: "pw_isDisabled d (Handle b) w1 = (q2, w2)"
        by (cases "pw_isDisabled d (Handle b) w1")
      let ?s2 = "(w2, snd s @ [Query selector, IsDisabled (Handle b)])"
      have c2: "call (IsDisabled (Handle b)) (pw_isDisabled d (Handle b)) ?s1 = (q2, ?s2)"
        by (simp add: call_def q2)
      show ?thesis
      proof (cases q2)
        case (Inl e)
        with Some Inr Cons.prems c1 c2
        have "scanBuyButton d iterations rest ?s2 = (Some button, s')" by simp
        then show ?thesis by (rule weaken [OF Cons.IH])
      next
        case dis: (Inr isDisabled)
        obtain q3 w3 where q3: "pw_isVisible d (Handle b) None w2 = (q3, w3)"
          by (cases "pw_isVisible d (Handle b) None w2")
        let ?s3 = "(w3, snd s @ [Query selector, IsDisabled (Handle b), IsVisible (Handle b) None])"
        have c3: "call (IsVisible (Handle b) None) (pw_isVisible d (Handle b) None) ?s2 = (q3, ?s3)"
          by (simp add: call_def q3)
        show ?thesis
        proof (cases q3)
          case (Inl e)
          with dis Some Inr Cons.prems c1 c2 c3
          have "scanBuyButton d iterations rest ?s3 = (Some button, s')" by simp
          then show ?thesis by (rule weaken [OF Cons.IH])
        next
          case vis: (Inr isVisible)
          show ?thesis
          proof (cases "isVisible \<and> \<not> isDisabled")
            case False
            with vis dis Some Inr Cons.prems c1 c2 c3
            have "scanBuyButton d iterations rest ?s3 = (Some button, s')" by auto
            then show ?thesis by (rule weaken [OF Cons.IH])
          next
            case True
            with vis dis Some Inr Cons.prems c1 c2 c3
            have b: "button = b"
              and s': "s' = logger Success [S ''Buy button found after '', N iterations, S '' iterations!''] ?s3"
              by auto
            have "selector \<in> set (selector # rest)
                \<and> pw_query d selector (fst s) = (Inr (Some button), w1)
                \<and> pw_isDisabled d (Handle button) w1 = (Inr False, w2)
                \<and> pw_isVisible d (Handle button) None w2 = (Inr True, fst s')
                \<and> snd s' = snd s @ [Query selector, IsDisabled (Handle button),
                           IsVisible (Handle button) None,
                           Log Success [S ''Buy button found after '', N iterations, S '' iterations!'']]"
              using True vis dis Some Inr q q2 q3 b s' by (simp add: logger_def)
            then show ?thesis unfolding foundReady_def by blast
          qed
        qed
      qed
    qed
  qed
qed

lemma scanBuyButton_never:
  "\<forall>selector w. \<exists>w'. pw_query d selector w = (Inr None, w') \<or> (\<exists>e. pw_query d selector w = (Inl e, w'))
     \<Longrightarrow> fst (scanBuyButton d iterations selectors s) = None"
proof (induction selectors arbitrary: s)
  case Nil
  then show ?case by simp
next
  case (Cons selector rest)
  from Cons.prems obtain w' where
    "pw_query d selector (fst s) = (Inr None, w') \<or> (\<exists>e. pw_query d selector (fst s) = (Inl e, w'))"
    by blast
  then show ?case using Cons.IH [OF Cons.prems] by (auto simp: call_def)
qed

lemma waitForBuyButton_body_end:
  assumes "waitForBuyButton_body d pollInterval iterations s = (Some result, s')"
  shows "pollEnd d pollInterval result s'"
proof -
  let ?s0 = "(fst s, snd s @ [GetUrl])"
  have u: "call GetUrl (\<lambda>w. (pw_url d w, w)) s = (pw_url d (fst s), ?s0)"
    by (simp add: call_def)
  show ?thesis
  proof (cases "isWaitingRoom (pw_url d (fst s))")
    case True
    with assms u obtain s1 e where
      "call (WaitForTimeout pollInterval) (pw_waitForTimeout d pollInterval) s1 = (Inl e, s')"
      "result = Threw e"
      by (auto simp: waitForBuyButton_body_def Let_def split: prod.splits sum.splits)
    then show ?thesis
      by (auto simp: pollEnd_def call_def split: prod.splits)
  next
    case False
    obtain found s1 where sc: "scanBuyButton d iterations event_buyButton ?s0 = (found, s1)"
      by (cases "scanBuyButton d iterations event_buyButton ?s0")
    show ?thesis
    proof (cases found)
      case (Some button)
      with assms u False sc have "result = Returned button" "s' = s1"
        by (auto simp: waitForBuyButton_body_def)
      moreover from sc Some have "foundReady d event_buyButton button s1"
        by (auto intro: scanBuyButton_found)
      ultimately show ?thesis
        by (simp add: pollEnd_def)
    next
      case None
      with assms u False sc obtain s2 e where
        "call (WaitForTimeout pollInterval) (pw_waitForTimeout d pollInterval) s2 = (Inl e, s')"
        "result = Threw e"
        by (auto simp: waitForBuyButton_body_def Let_def split: prod.splits sum.splits)
      then show ?thesis
        by (auto simp: pollEnd_def call_def split: prod.splits)
    qed
  qed
qed

lemma waitForBuyButton_loop_end:
  "waitForBuyButton_loop passes d pollInterval False iterations s = Some (result, s')
     \<Longrightarrow> pollEnd d pollInterval result s'"
proof (induction passes arbitrary: iterations s)
  case 0
  then show ?case by simp
next
  case (Suc passes)
  obtain r s1 where b: "waitForBuyButton_body d pollInterval (iterations + 1) s = (r, s1)"
    by (cases "waitForBuyButton_body d pollInterval (iterations + 1) s")
  show ?case
  proof (cases r)
    case None
    with Suc.prems b
    have "waitForBuyButton_loop passes d pollInterval False (iterations + 1) s1 = Some (result, s')"
      by simp
    then show ?thesis by (rule Suc.IH)
  next
    case (Some out)
    with Suc.prems b have "out = result" "s1 = s'" by simp_all
    with b Some waitForBuyButton_body_end show ?thesis by blast
  qed
qed

lemma waitForBuyButton_body_goes_on:
  assumes "neverOnSale d" and "sleepsWell d pollInterval"
  shows "fst (waitForBuyButton_body d pollInterval iterations s) = None"
proof -
  have w: "fst (call (WaitForTimeout pollInterval) (pw_waitForTimeout d pollInterval) s1) = Inr ()" for s1 :: "('a, 'b) run"
  proof -
    from assms(2) obtain w' where "pw_waitForTimeout d pollInterval (fst s1) = (Inr (), w')"
      unfolding sleepsWell_def by blast
    then show ?thesis by (simp add: call_def)
  qed
  let ?s0 = "(fst s, snd s @ [GetUrl])"
  show ?thesis
  proof (cases "isWaitingRoom (pw_url d (fst s))")
    case True
    have "fst (call (WaitForTimeout pollInterval) (pw_waitForTimeout d pollInterval) s1) = Inr ()
      \<Longrightarrow> fst (case call (WaitForTimeout pollInterval) (pw_waitForTimeout d pollInterval) s1 of
                  (Inl e, s2) \<Rightarrow> (Some (Threw e), s2)
                | (Inr u, s2) \<Rightarrow> (None :: 'b pollResult option, s2)) = None" for s1 :: "('a, 'b) run"
      by (auto split: prod.splits sum.splits)
    with w True show ?thesis
      by (simp add: waitForBuyButton_body_def Let_def call_def [of GetUrl])
  next
    case False
    with assms(1) have
      "\<forall>selector w. \<exists>w'. pw_query d selector w = (Inr None, w')
                              \<or> (\<exists>e. pw_query d selector w = (Inl e, w'))"
      unfolding neverOnSale_def by blast
    from scanBuyButton_never [OF this]
    have "fst (scanBuyButton d iterations event_buyButton ?s0) = None" .
    then obtain s1 where "scanBuyButton d iterations event_buyButton ?s0 = (None, s1)"
      by (cases "scanBuyButton d iterations event_buyButton ?s0") auto
    moreover have "fst (call (WaitForTimeout pollInterval) (pw_waitForTimeout d pollInterval) s2) = Inr ()
      \<Longrightarrow> fst (case call (WaitForTimeout pollInterval) (pw_waitForTimeout d pollInterval) s2 of
                  (Inl e, s3) \<Rightarrow> (Some (Threw e), s3)
                | (Inr u, s3) \<Rightarrow> (None :: 'b pollResult option, s3)) = None" for s2 :: "('a, 'b) run"
      by (auto split: prod.splits sum.splits)
    ultimately show ?thesis
      using w False
      by (simp add: waitForBuyButton_body_def Let_def call_def [of GetUrl])
  qed
qed

lemma waitForBuyButton_loop_goes_on:
  assumes "neverOnSale d" and "sleepsWell d pollInterval"
  shows "waitForBuyButton_loop passes d pollInterval False iterations s = None"
proof (induction passes arbitrary: iterations s)
  case 0
  then show ?case by simp
next
  case (Suc passes)
  from waitForBuyButton_body_goes_on [OF assms]
  obtain s1 where "waitForBuyButton_body d pollInterval (iterations + 1) s = (None, s1)"
    by (metis prod.collapse)
  then show ?case using Suc.IH by simp
qed

text \<open>
  C5. \<open>waitForBuyButton\<close> has no bound on its passes and no timeout. Whenever a call ends,
  it has returned a button that one of the buy-button selectors resolved to on the last
  pass and that was then reported not disabled and visible, or the sleep was rejected from
  outside; it never returns \<^verbatim>\<open>undefined\<close> or any other failure value. On a site that
  never puts the ticket on sale the loop is still running after any number of passes.
\<close>

theorem waitForBuyButton_ends_only_in_success:
  "(waitForBuyButton passes d pollInterval s = Some (result, s')
      \<longrightarrow> pollEnd d pollInterval result s')
   \<and> (neverOnSale d \<and> sleepsWell d pollInterval
      \<longrightarrow> (\<forall>n. waitForBuyButton n d pollInterval s = None))"
  using waitForBuyButton_loop_end waitForBuyButton_loop_goes_on
  unfolding waitForBuyButton_def by blast

theorem waitForBuyButton_ends_only_in_success_witness:
  "(\<exists>s'. waitForBuyButton 10 saleDemo 100 (0, []) = Some (Returned 5, s')
         \<and> pollEnd saleDemo 100 (Returned 5) s')
   \<and> neverOnSale queueDemo \<and> sleepsWell queueDemo 100
   \<and> (\<forall>n. waitForBuyButton n queueDemo 100 (0, []) = None)"
proof -
  have "map_option fst (waitForBuyButton 10 saleDemo 100 (0, [])) = Some (Returned 5)"
    by code_simp
  then obtain s' where run: "waitForBuyButton 10 saleDemo 100 (0, []) = Some (Returned 5, s')"
    by auto
  have "isWaitingRoom ''https://www.loket.com/queue/konser''" by code_simp
  then have q: "neverOnSale queueDemo"
    by (simp add: neverOnSale_def queueDemo_def idle_def)
  have sl: "sleepsWell queueDemo 100"
    by (simp add: sleepsWell_def queueDemo_def idle_def)
  from waitForBuyButton_ends_only_in_success [of 10 saleDemo 100 "(0, [])" "Returned 5" s'] run
  have a: "pollEnd saleDemo 100 (Returned 5) s'" by blast
  from waitForBuyButton_ends_only_in_success [of 0 queueDemo 100 "(0, [])" Undefined "(0, [])"] q sl
  have b: "\<forall>n. waitForBuyButton n queueDemo 100 (0, []) = None" by blast
  from run a q sl b show ?thesis by blast
qed

lemma snd_call: "snd (snd (call a f s)) = snd s @ [a]"
  by (simp add: call_def split: prod.splits)

lemma scanBuyButton_extends:
  "\<exists>later. snd (snd (scanBuyButton d iterations selectors s)) = snd s @ later"
proof (induction selectors arbitrary: s)
  case Nil
  then show ?case by simp
next
  case (Cons selector rest)
  have step: "\<exists>later. snd (snd (scanBuyButton d iterations rest s1)) = snd s @ later"
    if "\<exists>mid. snd s1 = snd s @ mid" for s1
    using that Cons.IH [of s1] by auto
  obtain q w1 where q: "pw_query d selector (fst s) = (q, w1)"
    by (cases "pw_query d selector (fst s)")
  let ?s1 = "(w1, snd s @ [Query selector])"
  have c1: "call (Query selector) (pw_query d selector) s = (q, ?s1)"
    by (simp add: call_def q)
  show ?case
  proof (cases q)
    case (Inl e)
    with c1 step [of ?s1] show ?thesis by simp
  next
    case (Inr found)
    show ?thesis
    proof (cases found)
      case None
      with Inr c1 step [of ?s1] show ?thesis by simp
    next
      case (Some b)
      obtain q2 w2 where q2: "pw_isDisabled d (Handle b) w1 = (q2, w2)"
        by (cases "pw_isDisabled d (Handle b) w1")
      let ?s2 = "(w2, snd s @ [Query selector, IsDisabled (Handle b)])"
      have c2: "call (IsDisabled (Handle b)) (pw_isDisabled d (Handle b)) ?s1 = (q2, ?s2)"
        by (simp add: call_def q2)
      show ?thesis
      proof (cases q2)
        case (Inl e)
        with Some Inr c1 c2 step [of ?s2] show ?thesis by simp
      next
        case dis: (Inr isDisabled)
        obtain q3 w3 where q3: "pw_isVisible d (Handle b) None w2 = (q3, w3)"
          by (cases "pw_isVisible d (Handle b) None w2")
        let ?s3 = "(w3, snd s @ [Query selector, IsDisabled (Handle b), IsVisible (Handle b) None])"
        have c3: "call (IsVisible (Handle b) None) (pw_isVisible d (Handle b) None) ?s2 = (q3, ?s3)"
          by (simp add: call_def q3)
        show ?thesis
        proof (cases q3)
          case (Inl e)
          with dis Some Inr c1 c2 c3 step [of ?s3] show ?thesis by simp
        next
          case vis: (Inr isVisible)
          with dis Some Inr c1 c2 c3 step [of ?s3] show ?thesis
            by (simp add: logger_def)
        qed
      qed
    qed
  qed
qed

text \<open>
  C4. In every pass through the polling loop the location is read first. When it is a queue
  location, the pass consists of that reading, the waiting-room message on the passes
  numbered 1, 51, 101, ..., and one sleep of the poll interval: no query of the buy button,
  no reload, no navigation, no click. The pass ends the loop only if the sleep is rejected.
\<close>

theorem gated_pass_only_sleeps:
  "(isWaitingRoom (pw_url d (fst s)) \<longrightarrow>
      waitForBuyButton_body d pollInterval iterations s =
        (case pw_waitForTimeout d pollInterval (fst s) of
           (Inl e, w') \<Rightarrow> (Some (Threw e), (w', snd s @ gatedPass pollInterval iterations))
         | (Inr u, w') \<Rightarrow> (None, (w', snd s @ gatedPass pollInterval iterations))))
   \<and> (\<exists>later. snd (snd (waitForBuyButton_body d pollInterval iterations s)) = snd s @ GetUrl # later)"
proof -
  let ?s0 = "(fst s, snd s @ [GetUrl])"
  have u: "call GetUrl (\<lambda>w. (pw_url d w, w)) s = (pw_url d (fst s), ?s0)"
    by (simp add: call_def)
  have gated:
    "waitForBuyButton_body d pollInterval iterations s =
        (case pw_waitForTimeout d pollInterval (fst s) of
           (Inl e, w') \<Rightarrow> (Some (Threw e), (w', snd s @ gatedPass pollInterval iterations))
         | (Inr u, w') \<Rightarrow> (None, (w', snd s @ gatedPass pollInterval iterations)))"
    if "isWaitingRoom (pw_url d (fst s))"
    using that
    by (simp add: waitForBuyButton_body_def u Let_def call_def [of "WaitForTimeout pollInterval"]
          logger_def gatedPass_def split: prod.splits sum.splits)
  have wait: "\<exists>later. snd (snd (case call (WaitForTimeout pollInterval)
                                        (pw_waitForTimeout d pollInterval) s2 of
                      (Inl e, s3) \<Rightarrow> (Some (Threw e), s3)
                    | (Inr u, s3) \<Rightarrow> (None :: 'b pollResult option, s3))) = snd s @ GetUrl # later"
    if "\<exists>mid. snd s2 = snd s @ GetUrl # mid" for s2 :: "('a, 'b) run"
    using that by (auto simp: call_def split: prod.splits sum.splits)
  have first: "\<exists>later. snd (snd (waitForBuyButton_body d pollInterval iterations s)) = snd s @ GetUrl # later"
  proof (cases "isWaitingRoom (pw_url d (fst s))")
    case True
    then show ?thesis
      by (simp add: gated gatedPass_def split: prod.splits sum.splits)
  next
    case False
    obtain found s1 where sc: "scanBuyButton d iterations event_buyButton ?s0 = (found, s1)"
      by (cases "scanBuyButton d iterations event_buyButton ?s0")
    from scanBuyButton_extends [of d iterations event_buyButton ?s0] sc
    have ext: "\<exists>mid. snd s1 = snd s @ GetUrl # mid" by auto
    show ?thesis
    proof (cases found)
      case (Some button)
      with False sc ext show ?thesis
        by (simp add: waitForBuyButton_body_def u)
    next
      case None
      have "\<exists>mid. snd (logger lvl msg s1) = snd s @ GetUrl # mid" for lvl msg
        using ext by (auto simp: logger_def)
      with ext None False sc show ?thesis
        by (simp add: waitForBuyButton_body_def u Let_def wait)
    qed
  qed
  from gated first show ?thesis by blast
qed

theorem gated_pass_only_sleeps_witness:
  "isWaitingRoom (pw_url saleDemo 0)
   \<and> waitForBuyButton_body saleDemo 100 1 (0, []) =
       (None, (1, [GetUrl, Log Queue [S ''In waiting room - staying patient, NOT refreshing...''],
                   WaitForTimeout 100]))"
proof -
  have g: "isWaitingRoom (pw_url saleDemo 0)" by code_simp
  have w: "pw_waitForTimeout saleDemo 100 0 = (Inr (), 1)"
    by (simp add: saleDemo_def idle_def)
  from gated_pass_only_sleeps [of saleDemo "(0, [])" 100 1] g w
  have "waitForBuyButton_body saleDemo 100 1 (0, []) =
       (None, (1, [GetUrl, Log Queue [S ''In waiting room - staying patient, NOT refreshing...''],
                   WaitForTimeout 100]))"
    by (simp add: gatedPass_def)
  with g show ?thesis by blast
qed

section \<open>The phone field\<close>

lemma quietly_refl: "quietly s s"
  by (simp add: quietly_def silent_def)

lemma quietly_step:
  "quietly s s1 \<Longrightarrow> snd s2 = snd s1 @ [a]
     \<Longrightarrow> (case a of Log lvl msg \<Rightarrow> lvl \<noteq> Success | _ \<Rightarrow> True) \<Longrightarrow> quietly s s2"
  by (auto simp: quietly_def silent_def)

lemma quietly_call:
  "quietly s s1 \<Longrightarrow> (case a of Log lvl msg \<Rightarrow> lvl \<noteq> Success | _ \<Rightarrow> True)
     \<Longrightarrow> quietly s (snd (call a f s1))"
  by (rule quietly_step [where a = a]) (auto simp: call_def split: prod.splits)

lemma quietly_logger:
  "quietly s s1 \<Longrightarrow> lvl \<noteq> Success \<Longrightarrow> quietly s (logger lvl msg s1)"
  by (rule quietly_step [where a = "Log lvl msg"]) (auto simp: logger_def)

lemma quietly_andThen:
  "quietly s (snd r) \<Longrightarrow> (\<And>a s1. quietly s s1 \<Longrightarrow> quietly s (snd (f a s1)))
     \<Longrightarrow> quietly s (snd (andThen r f))"
  by (cases r) (auto simp: andThen_def split: sum.splits)

lemma typePhone_quietly:
  "quietly s s1 \<Longrightarrow> quietly s (snd (typePhone d phone inp s1))"
  unfolding typePhone_def
  by (intro quietly_andThen quietly_call) simp_all

lemma fillPhone_body_cases:
  assumes "quietly s s0" and "fillPhone_body d phone i s0 = (r, s')"
  shows "(r = Inr True \<and> phoneVerdict d phone s s') \<or> (r \<noteq> Inr True \<and> quietly s s')"
proof -
  let ?inp = "Loc (Nth phoneInputs i) :: 'b target"
  obtain r1 s1 where c1: "call (GetAttribute ?inp ''name'') (pw_getAttribute d ?inp ''name'') s0 = (r1, s1)"
    by (cases "call (GetAttribute ?inp ''name'') (pw_getAttribute d ?inp ''name'') s0")
  have q1: "quietly s s1" using quietly_call [OF assms(1), of "GetAttribute ?inp ''name''" "pw_getAttribute d ?inp ''name''"] c1 by simp
  show ?thesis
  proof (cases r1)
    case (Inl e)
    with assms(2) c1 q1 show ?thesis by (auto simp: fillPhone_body_def andThen_def)
  next
    case (Inr nameAttr)
    obtain r2 s2 where c2: "call (InputValue ?inp) (pw_inputValue d ?inp) s1 = (r2, s2)"
      by (cases "call (InputValue ?inp) (pw_inputValue d ?inp) s1")
    have q2: "quietly s s2" using quietly_call [OF q1, of "InputValue ?inp" "pw_inputValue d ?inp"] c2 by simp
    show ?thesis
    proof (cases r2)
      case (Inl e)
      with Inr assms(2) c1 c2 q2 show ?thesis by (auto simp: fillPhone_body_def andThen_def)
    next
      case val: (Inr currentValue)
      show ?thesis
      proof (cases "(nameAttr = None \<or> nameAttr = Some []) \<and> currentValue = []")
        case False
        with val Inr assms(2) c1 c2 q2 show ?thesis
          by (auto simp: fillPhone_body_def andThen_def)
      next
        case True
        obtain r3 s3 where c3: "typePhone d phone ?inp s2 = (r3, s3)"
          by (cases "typePhone d phone ?inp s2")
        have q3: "quietly s s3" using typePhone_quietly [OF q2, of d phone ?inp] c3 by simp
        show ?thesis
        proof (cases r3)
          case (Inl e)
          with True val Inr assms(2) c1 c2 c3 q3 show ?thesis
            by (auto simp: fillPhone_body_def andThen_def)
        next
          case new: (Inr newValue)
          with True val Inr assms(2) c1 c2 c3
          have r: "r = Inr True" and s': "s' = (fst s3, snd s3 @ [reportPhone phone i newValue])"
            by (auto simp: fillPhone_body_def andThen_def)
          have "quietly s s3
              \<and> typePhone d phone (Loc (Nth phoneInputs i)) s2 = (Inr newValue, s3)
              \<and> fst s' = fst s3
              \<and> snd s' = snd s3 @
                   [if newValue = phone \<or> newValue = replaceLeadingZero phone
                    then Log Success [S ''Filled Phone (input '', N (i + 1), S ''): '',
                                      S (take 8 newValue), S ''...'']
                    else Log Warn [S ''Phone value after type: '', S newValue]]"
            using q3 c3 new s' by (simp add: reportPhone_def)
          then have "phoneVerdict d phone s s'"
            unfolding phoneVerdict_def by blast
          with r show ?thesis by simp
        qed
      qed
    qed
  qed
qed

lemma fillPhone_loop_cases:
  "quietly s s0 \<Longrightarrow> fillPhone_loop d phone indices s0 = (r, s')
     \<Longrightarrow> (r = Inr () \<and> phoneVerdict d phone s s') \<or> quietly s s'"
proof (induction indices arbitrary: s0)
  case Nil
  then show ?case by simp
next
  case (Cons i rest)
  obtain r1 s1 where b: "fillPhone_body d phone i s0 = (r1, s1)"
    by (cases "fillPhone_body d phone i s0")
  from fillPhone_body_cases [OF Cons.prems(1) b]
  consider "r1 = Inr True" "phoneVerdict d phone s s1" | "r1 \<noteq> Inr True" "quietly s s1" by blast
  then show ?case
  proof cases
    case 1
    with Cons.prems(2) b show ?thesis by auto
  next
    case 2
    show ?thesis
    proof (cases r1)
      case (Inl e)
      with 2 Cons.prems(2) b show ?thesis by simp
    next
      case (Inr brk)
      with 2 have "brk = False" by simp
      with Inr Cons.prems(2) b have "fillPhone_loop d phone rest s1 = (r, s')" by simp
      from Cons.IH [OF 2(2) this] show ?thesis .
    qed
  qed
qed

lemma fillPhoneByPosition_cases:
  "phoneVerdict d phone s (fillPhoneByPosition d phone s)
   \<or> quietly s (fillPhoneByPosition d phone s)"
proof -
  obtain r0 s0 where c0: "call (All phoneInputs) (pw_allOf d phoneInputs) s = (r0, s0)"
    by (cases "call (All phoneInputs) (pw_allOf d phoneInputs) s")
  have q0: "quietly s s0"
    using quietly_call [OF quietly_refl, of "All phoneInputs" s "pw_allOf d phoneInputs"] c0 by simp
  show ?thesis
  proof (cases r0)
    case (Inl e)
    with c0 have "fillPhoneByPosition d phone s = logger Warn [S ''Phone position fill error: '', S (message e)] s0"
      by (simp add: fillPhoneByPosition_def andThen_def)
    with quietly_logger [OF q0] show ?thesis by simp
  next
    case (Inr n)
    let ?s1 = "logger Info [S ''Found '', N n, S '' visible text inputs for phone check''] s0"
    have q1: "quietly s ?s1" by (rule quietly_logger [OF q0]) simp
    obtain r2 s2 where l: "fillPhone_loop d phone [0..<n] ?s1 = (r2, s2)"
      by (cases "fillPhone_loop d phone [0..<n] ?s1")
    from fillPhone_loop_cases [OF q1 l]
    have v: "(r2 = Inr () \<and> phoneVerdict d phone s s2) \<or> quietly s s2" .
    show ?thesis
    proof (cases r2)
      case ok: (Inr u)
      with Inr c0 l have "fillPhoneByPosition d phone s = s2"
        by (simp add: fillPhoneByPosition_def andThen_def)
      with v show ?thesis by auto
    next
      case (Inl e)
      with Inr c0 l have f: "fillPhoneByPosition d phone s = logger Warn [S ''Phone position fill error: '', S (message e)] s2"
        by (simp add: fillPhoneByPosition_def andThen_def)
      from v Inl have "quietly s s2" by simp
      from quietly_logger [OF this] f show ?thesis by simp
    qed
  qed
qed

lemma fillPhone_body_typed:
  assumes "call (GetAttribute (Loc (Nth phoneInputs i)) ''name'')
             (pw_getAttribute d (Loc (Nth phoneInputs i)) ''name'') s0 = (Inr nameAttr, s1)"
    and "nameAttr = None \<or> nameAttr = Some []"
    and "call (InputValue (Loc (Nth phoneInputs i))) (pw_inputValue d (Loc (Nth phoneInputs i))) s1
           = (Inr [], s2)"
    and "typePhone d phone (Loc (Nth phoneInputs i)) s2 = (Inr newValue, s3)"
  shows "fillPhone_body d phone i s0 =
           (Inr True,
            (fst s3, snd s3 @
               [if newValue = phone \<or> newValue = replaceLeadingZero phone
                then Log Success [S ''Filled Phone (input '', N (i + 1), S ''): '',
                                  S (take 8 newValue), S ''...'']
                else Log Warn [S ''Phone value after type: '', S newValue]]))"
  using assms by (auto simp: fillPhone_body_def andThen_def reportPhone_def Let_def)

text \<open>
  The block that fills the phone by position does verify. After the phone has been typed
  into the field the stored value is read back and compared. The block reports success in
  one place only, as its last action, and only when
  the value read back is the configured phone or that phone without its one leading zero;
  whenever the value has been read back and is anything else, the block ends with the
  warning that shows the value, and no success is reported.
\<close>

theorem fillPhoneByPosition_success_only_when_verified:
  "(phoneVerdict d phone s (fillPhoneByPosition d phone s)
      \<or> quietly s (fillPhoneByPosition d phone s))
   \<and> (call (GetAttribute (Loc (Nth phoneInputs i)) ''name'')
             (pw_getAttribute d (Loc (Nth phoneInputs i)) ''name'') s0 = (Inr nameAttr, s1)
        \<and> (nameAttr = None \<or> nameAttr = Some [])
        \<and> call (InputValue (Loc (Nth phoneInputs i))) (pw_inputValue d (Loc (Nth phoneInputs i))) s1
             = (Inr [], s2)
        \<and> typePhone d phone (Loc (Nth phoneInputs i)) s2 = (Inr newValue, s3)
      \<longrightarrow> fillPhone_body d phone i s0 =
           (Inr True,
            (fst s3, snd s3 @
               [if newValue = phone \<or> newValue = replaceLeadingZero phone
                then Log Success [S ''Filled Phone (input '', N (i + 1), S ''): '',
                                  S (take 8 newValue), S ''...'']
                else Log Warn [S ''Phone value after type: '', S newValue]])))"
  using fillPhoneByPosition_cases fillPhone_body_typed by blast

theorem fillPhoneByPosition_success_only_when_verified_witness:
  "phoneVerdict stripDemo ''08123456789'' (0, []) (fillPhoneByPosition stripDemo ''08123456789'' (0, []))
   \<and> last (snd (fillPhoneByPosition stripDemo ''08123456789'' (0, [])))
       = Log Success [S ''Filled Phone (input '', N 3, S ''): '', S ''81234567'', S ''...'']
   \<and> fillPhone_body mangleDemo ''08123456789'' 2 (5, []) =
        (Inr True,
         (14, [GetAttribute (Loc (Nth phoneInputs 2)) ''name'', InputValue (Loc (Nth phoneInputs 2)),
               Click (Loc (Nth phoneInputs 2)) None, WaitForTimeout 100,
               Fill (Loc (Nth phoneInputs 2)) [], WaitForTimeout 50,
               TypeText (Loc (Nth phoneInputs 2)) ''08123456789'' 30, WaitForTimeout 100,
               InputValue (Loc (Nth phoneInputs 2)),
               Log Warn [S ''Phone value after type: '', S ''812345'']]))"
proof -
  let ?inp = "Loc (Nth phoneInputs 2) :: nat target"
  let ?typed = "[Click ?inp None, WaitForTimeout 100, Fill ?inp [], WaitForTimeout 50,
               TypeText ?inp ''08123456789'' 30, WaitForTimeout 100, InputValue ?inp]"
  have a: "last (snd (fillPhoneByPosition stripDemo ''08123456789'' (0, [])))
       = Log Success [S ''Filled Phone (input '', N 3, S ''): '', S ''81234567'', S ''...'']"
    by code_simp
  have na: "\<not> silent (snd (fillPhoneByPosition stripDemo ''08123456789'' (0, [])))"
    by code_simp
  then have nq: "\<not> quietly (0, []) (fillPhoneByPosition stripDemo ''08123456789'' (0, []))"
    by (simp add: quietly_def)
  have c1: "call (GetAttribute ?inp ''name'') (pw_getAttribute mangleDemo ?inp ''name'') (5, [])
              = (Inr None, (6, [GetAttribute ?inp ''name'']))"
    by code_simp
  have c2: "call (InputValue ?inp) (pw_inputValue mangleDemo ?inp) (6, [GetAttribute ?inp ''name''])
              = (Inr [], (7, [GetAttribute ?inp ''name'', InputValue ?inp]))"
    by code_simp
  have c3: "typePhone mangleDemo ''08123456789'' ?inp (7, [GetAttribute ?inp ''name'', InputValue ?inp])
              = (Inr ''812345'', (14, [GetAttribute ?inp ''name'', InputValue ?inp] @ ?typed))"
    by code_simp
  from fillPhoneByPosition_success_only_when_verified
         [where d = stripDemo and phone = "''08123456789''" and s = "(0, [])"] nq
  have v: "phoneVerdict stripDemo ''08123456789'' (0, [])
             (fillPhoneByPosition stripDemo ''08123456789'' (0, []))"
    by blast
  from fillPhoneByPosition_success_only_when_verified
         [where d = mangleDemo and phone = "''08123456789''" and i = 2 and ?s0.0 = "(5, [])"
            and nameAttr = None and ?s1.0 = "(6, [GetAttribute ?inp ''name''])"
            and ?s2.0 = "(7, [GetAttribute ?inp ''name'', InputValue ?inp])"
            and newValue = "''812345''"
            and ?s3.0 = "(14, [GetAttribute ?inp ''name'', InputValue ?inp] @ ?typed)"]
       c1 c2 c3
  have "fillPhone_body mangleDemo ''08123456789'' 2 (5, []) =
        (Inr True,
         (14, [GetAttribute ?inp ''name'', InputValue ?inp] @ ?typed @
               [Log Warn [S ''Phone value after type: '', S ''812345'']]))"
    by (simp add: replaceLeadingZero_def)
  with v a show ?thesis by simp
qed

text \<open>
  C7. The claim does not hold of \<^verbatim>\<open>fillForm\<close>: the phone is filled in two places, and only
  the block that fills it by position reads the stored value back. The loop over the field
  mappings comes first; it fills the phone into the first visible field that one of the
  four phone selectors finds, and reports success at once. On the form \<open>maskDemo\<close>, whose
  phone input keeps the value \<^verbatim>\<open>8123\<close>, with the configured phone \<^verbatim>\<open>08123456789\<close>: the function
  returns; after the 32 actions of the listing and of the name, identity and e-mail
  mappings, the phone input is probed and filled and the success is reported; no action of
  the run reads a value back, and the one warning about the phone is not among the
  warnings; the value that the input holds at the end is neither the configured phone nor
  that phone without its leading zero.
\<close>

theorem fillForm_phone_success_unverified:
  \<open>fst (fillForm_toPhone maskDemo budi (0, [])) = Inr ()
   \<and> drop 32 (snd (snd (fillForm_toPhone maskDemo budi (0, [])))) =
       [IsVisible (Loc (First (Locator ''input[name="phone"]''))) (Some 500),
        Fill (Loc (First (Locator ''input[name="phone"]''))) ''08123456789'',
        Log Success [S ''Filled '', S ''Phone'', S '': '', S ''0812345678'', S ''...''],
        All phoneInputs,
        Log Info [S ''Found '', N 0, S '' visible text inputs for phone check'']]
   \<and> filter isInputValue (snd (snd (fillForm_toPhone maskDemo budi (0, [])))) = []
   \<and> filter (\<lambda>a. case a of Log lvl msg \<Rightarrow> lvl = Warn | _ \<Rightarrow> False)
         (snd (snd (fillForm_toPhone maskDemo budi (0, [])))) =
       [Log Warn [S ''Could not find field for: '', S ''Name''],
        Log Warn [S ''Could not find field for: '', S ''NIK''],
        Log Warn [S ''Could not find field for: '', S ''Email'']]
   \<and> fst (pw_inputValue maskDemo (Loc (First (Locator ''input[name="phone"]'')))
            (fst (snd (fillForm_toPhone maskDemo budi (0, []))))) = Inr ''8123''
   \<and> ''8123'' \<noteq> pd_phone budi
   \<and> ''8123'' \<noteq> replaceLeadingZero (pd_phone budi)\<close>
proof -
  let ?run = "fillForm_toPhone maskDemo budi (0, [])"
  have a: "fst ?run = Inr ()" by code_simp
  have b: \<open>drop 32 (snd (snd ?run)) =
       [IsVisible (Loc (First (Locator ''input[name="phone"]''))) (Some 500),
        Fill (Loc (First (Locator ''input[name="phone"]''))) ''08123456789'',
        Log Success [S ''Filled '', S ''Phone'', S '': '', S ''0812345678'', S ''...''],
        All phoneInputs,
        Log Info [S ''Found '', N 0, S '' visible text inputs for phone check'']]\<close>
    by code_simp
  have c: "filter isInputValue (snd (snd ?run)) = []" by code_simp
  have d: "filter (\<lambda>a. case a of Log lvl msg \<Rightarrow> lvl = Warn | _ \<Rightarrow> False) (snd (snd ?run)) =
       [Log Warn [S ''Could not find field for: '', S ''Name''],
        Log Warn [S ''Could not find field for: '', S ''NIK''],
        Log Warn [S ''Could not find field for: '', S ''Email'']]"
    by code_simp
  have e: \<open>fst (pw_inputValue maskDemo (Loc (First (Locator ''input[name="phone"]'')))
            (fst (snd ?run))) = Inr ''8123''\<close>
    by (simp add: maskDemo_def)
  have f: "''8123'' \<noteq> pd_phone budi \<and> ''8123'' \<noteq> replaceLeadingZero (pd_phone budi)"
    by (simp add: budi_def replaceLeadingZero_def)
  from a b c d e f show ?thesis by blast
qed

section \<open>The selection of the category\<close>

text \<open>
  C1. The claim does not hold of \<^verbatim>\<open>selectCategory\<close>: its first block clicks the first visible
  button of \<^verbatim>\<open>selectButtonSelectors\<close> and returns \<^verbatim>\<open>true\<close> before any keyword is looked at.
  On the page \<open>shopDemo\<close>, which lists the category VIP before the category Festival, with
  the one preferred keyword \<^verbatim>\<open>Festival\<close>: the function returns \<^verbatim>\<open>true\<close>; the one element
  clicked is button 1, of the VIP section; the run makes one click, on the first button
  with the text \<^verbatim>\<open>Select\<close>, and never queries the ticket sections; the run is the same
  with no keyword at all. The block that does look at the keywords, started on the same page,
  clicks button 2, of the Festival section.
\<close>

theorem selectCategory_clicks_before_keywords:
  \<open>fst (selectCategory shopDemo [''Festival''] 1 ([], [])) = Inr True
   \<and> fst (snd (selectCategory shopDemo [''Festival''] 1 ([], []))) = [1]
   \<and> filter isClick (snd (snd (selectCategory shopDemo [''Festival''] 1 ([], []))))
       = [Click (Loc (First (Locator ''button:has-text("Select")''))) (Some 5000)]
   \<and> QueryAll ticketSectionsSelector
       \<notin> set (snd (snd (selectCategory shopDemo [''Festival''] 1 ([], []))))
   \<and> selectCategory shopDemo [] 1 ([], []) = selectCategory shopDemo [''Festival''] 1 ([], [])
   \<and> fst (keywordApproach shopDemo [''Festival''] 1 ([], [])) = True
   \<and> fst (snd (keywordApproach shopDemo [''Festival''] 1 ([], []))) = [2]\<close>
proof -
  let ?run = "selectCategory shopDemo [''Festival''] 1 ([], [])"
  have a: "fst ?run = Inr True" by code_simp
  have b: "fst (snd ?run) = [1]" by code_simp
  have c: \<open>filter isClick (snd (snd ?run))
       = [Click (Loc (First (Locator ''button:has-text("Select")''))) (Some 5000)]\<close>
    by code_simp
  have d: "QueryAll ticketSectionsSelector \<notin> set (snd (snd ?run))" by code_simp
  have e: "selectCategory shopDemo [] 1 ([], []) = ?run" by code_simp
  have f: "fst (keywordApproach shopDemo [''Festival''] 1 ([], [])) = True" by code_simp
  have g: "fst (snd (keywordApproach shopDemo [''Festival''] 1 ([], []))) = [2]" by code_simp
  from a b c d e f g show ?thesis by blast
qed

section \<open>The checkout loop\<close>


















section \<open>The value of navigateToPayment\<close>

lemma trueOrThrows_andThen:
  "(\<And>a s. trueOrThrows (f a s)) \<Longrightarrow> trueOrThrows (andThen r f)"
  by (cases r; cases "fst r") (auto simp: andThen_def trueOrThrows_def)

lemma trueOrThrows_case_prod:
  "(\<And>a b. trueOrThrows (f a b)) \<Longrightarrow> trueOrThrows (case p of (a, b) \<Rightarrow> f a b)"
  by (cases p) simp

lemma trueOrThrows_finalResult:
  "trueOrThrows (finalResult d vaNumber vaClicked bcaClicked s)"
proof (cases vaNumber)
  case None
  then show ?thesis by (simp add: finalResult_def trueOrThrows_def)
next
  case (Some num)
  show ?thesis
    unfolding finalResult_def Some option.case
    by (intro trueOrThrows_case_prod trueOrThrows_andThen) (simp add: trueOrThrows_def)
qed

lemma trueOrThrows_paymentPhase: "trueOrThrows (paymentPhase d s)"
  unfolding paymentPhase_def
  by (intro trueOrThrows_andThen trueOrThrows_case_prod trueOrThrows_finalResult)

lemma trueOrThrows_navigateToPayment: "trueOrThrows (navigateToPayment d s)"
proof -
  obtain r n s1 where
    l: "checkout_loop d 5 0 (logger Info [S ''Navigating to payment page...''] s) = ((r, n), s1)"
    by (cases "checkout_loop d 5 0 (logger Info [S ''Navigating to payment page...''] s)") auto
  show ?thesis
  proof (cases r)
    case (Inl e)
    with l show ?thesis by (simp add: navigateToPayment_def trueOrThrows_def)
  next
    case (Inr b)
    with l trueOrThrows_paymentPhase [of d s1] show ?thesis
      by (cases b) (simp_all add: navigateToPayment_def trueOrThrows_def)
  qed
qed

lemma returnsTrue_wait:
  assumes "uncaughtResolve d" and "\<And>s. returnsTrue (f () s)"
  shows "returnsTrue (andThen (call (WaitForTimeout t) (pw_waitForTimeout d t) s0) f)"
proof -
  from assms(1) obtain w' where "pw_waitForTimeout d t (fst s0) = (Inr (), w')"
    unfolding uncaughtResolve_def by blast
  then show ?thesis using assms(2) by (simp add: andThen_def call_def)
qed

lemma returnsTrue_write:
  assumes "uncaughtResolve d" and "\<And>s. returnsTrue (f () s)"
  shows "returnsTrue (andThen (call (WriteFile file content) (fs_writeFileSync d file content) s0) f)"
proof -
  from assms(1) obtain w' where "fs_writeFileSync d file content (fst s0) = (Inr (), w')"
    unfolding uncaughtResolve_def by blast
  then show ?thesis using assms(2) by (simp add: andThen_def call_def)
qed

lemma returnsTrue_case_prod:
  "(\<And>a b. returnsTrue (f a b)) \<Longrightarrow> returnsTrue (case p of (a, b) \<Rightarrow> f a b)"
  by (cases p) simp

lemma returnsTrue_finalResult:
  assumes "uncaughtResolve d"
  shows "returnsTrue (finalResult d vaNumber vaClicked bcaClicked s)"
proof (cases vaNumber)
  case None
  then show ?thesis by (simp add: finalResult_def returnsTrue_def)
next
  case (Some num)
  show ?thesis
    unfolding finalResult_def Some option.case
    by (intro returnsTrue_case_prod returnsTrue_write [OF assms]) (simp add: returnsTrue_def)
qed

lemma returnsTrue_paymentPhase:
  assumes "uncaughtResolve d"
  shows "returnsTrue (paymentPhase d s)"
  unfolding paymentPhase_def
  by (intro returnsTrue_wait [OF assms] returnsTrue_case_prod returnsTrue_finalResult [OF assms])

lemma checkout_pass_no_escape:
  assumes "uncaughtResolve d"
  shows "fst (checkout_pass d s) \<noteq> Escaped e"
proof -
  from assms obtain w1 where "pw_waitForTimeout d 1000 (fst s) = (Inr (), w1)"
    unfolding uncaughtResolve_def by blast
  then have w: "call (WaitForTimeout 1000) (pw_waitForTimeout d 1000) s
                  = (Inr (), (w1, snd s @ [WaitForTimeout 1000]))"
    by (simp add: call_def)
  from assms obtain q w2 where "pw_query d paymentSurface w1 = (Inr q, w2)"
    unfolding uncaughtResolve_def by blast
  then have q: "call (Query paymentSurface) (pw_query d paymentSurface)
                  (w1, snd s @ [WaitForTimeout 1000])
                  = (Inr q, (w2, snd s @ [WaitForTimeout 1000, Query paymentSurface]))"
    by (simp add: call_def)
  show ?thesis
    by (simp add: checkout_pass_def w q split: option.splits prod.splits bool.splits)
qed

lemma checkout_loop_no_escape:
  assumes "uncaughtResolve d"
  shows "fst (fst (checkout_loop d maxClicks clickCount s)) \<noteq> Inl e"
proof (induction k \<equiv> "maxClicks - clickCount" arbitrary: clickCount s)
  case 0
  then have "\<not> clickCount < maxClicks" by simp
  then show ?case by (simp add: checkout_loop.simps [of d maxClicks clickCount s])
next
  case (Suc k)
  then have lt: "clickCount < maxClicks" and k: "k = maxClicks - (clickCount + 1)" by simp_all
  obtain p s1 where pass: "checkout_pass d s = (p, s1)"
    by (cases "checkout_pass d s")
  show ?case
  proof (cases p)
    case Clicked
    with Suc.hyps(1) [OF k, of s1] lt pass show ?thesis
      by (simp add: checkout_loop.simps [of d maxClicks clickCount s])
  next
    case (Escaped e')
    with pass have "fst (checkout_pass d s) = Escaped e'" by simp
    with checkout_pass_no_escape [OF assms, of s e'] show ?thesis by blast
  qed (use lt pass in \<open>simp_all add: checkout_loop.simps [of d maxClicks clickCount s]\<close>)
qed

lemma returnsTrue_navigateToPayment:
  assumes "uncaughtResolve d"
  shows "returnsTrue (navigateToPayment d s)"
proof -
  obtain r n s1 where
    l: "checkout_loop d 5 0 (logger Info [S ''Navigating to payment page...''] s) = ((r, n), s1)"
    by (cases "checkout_loop d 5 0 (logger Info [S ''Navigating to payment page...''] s)") auto
  with checkout_loop_no_escape [OF assms, of 5 0 "logger Info [S ''Navigating to payment page...''] s"]
  obtain b where "r = Inr b" by (cases r) auto
  with l returnsTrue_paymentPhase [OF assms, of s1] show ?thesis
    by (cases b) (simp_all add: navigateToPayment_def returnsTrue_def)
qed

text \<open>
  C10. \<open>navigateToPayment\<close> never returns \<^verbatim>\<open>false\<close>: whatever the page does, the call
  returns \<^verbatim>\<open>true\<close> or an error escapes it. When the sleeps, the query of the payment
  surface and the writing of the result file do not reject, it returns \<^verbatim>\<open>true\<close>, whether
  or not a payment surface, a payment method, a checkbox, a pay button or a VA number was
  found.
\<close>

theorem navigateToPayment_never_false:
  "(fst (navigateToPayment d s) = Inr True \<or> (\<exists>e. fst (navigateToPayment d s) = Inl e))
   \<and> (uncaughtResolve d \<longrightarrow> fst (navigateToPayment d s) = Inr True)"
  using trueOrThrows_navigateToPayment [of d s] returnsTrue_navigateToPayment [of d s]
  by (simp add: trueOrThrows_def returnsTrue_def)

theorem navigateToPayment_never_false_witness:
  "uncaughtResolve idle
   \<and> fst (navigateToPayment idle (0, [])) = Inr True
   \<and> uncaughtResolve surfaceDemo
   \<and> fst (navigateToPayment surfaceDemo (0, [])) = Inr True
   \<and> fst (navigateToPayment closedDemo (0, []))
       = Inl (Error ''Target page, context or browser has been closed'')"
proof -
  let ?s = "(0, []) :: (nat, nat) run"
  have u: "uncaughtResolve idle"
    by (simp add: uncaughtResolve_def idle_def)
  have u': "uncaughtResolve surfaceDemo"
    by (simp add: uncaughtResolve_def surfaceDemo_def idle_def)
  have p: "checkout_pass closedDemo (logger Info [S ''Navigating to payment page...''] ?s)
             = (Escaped (Error ''Target page, context or browser has been closed''),
                (1, [Log Info [S ''Navigating to payment page...''], WaitForTimeout 1000]))"
    by (simp add: checkout_pass_def closedDemo_def idle_def call_def logger_def)
  have c: "fst (navigateToPayment closedDemo ?s)
       = Inl (Error ''Target page, context or browser has been closed'')"
    by (simp add: navigateToPayment_def p
          checkout_loop.simps [of closedDemo 5 0 "logger Info [S ''Navigating to payment page...''] ?s"])
  from navigateToPayment_never_false [of idle ?s] u
  have a: "fst (navigateToPayment idle ?s) = Inr True" by blast
  from navigateToPayment_never_false [of surfaceDemo ?s] u'
  have b: "fst (navigateToPayment surfaceDemo ?s) = Inr True" by blast
  from u u' a b c show ?thesis by simp
qed

section \<open>The extraction of the VA number\<close>

lemma step1_elem:
  "st' \<in> set (step1 P st) \<Longrightarrow> \<exists>c. P c \<and> snd st = c # snd st' \<and> fst st' = Some c"
  by (cases "snd st") (auto simp: step1_def split: if_splits)

lemma ways_Rep_Digit:
  "lo \<le> hi \<Longrightarrow> st' \<in> set (ways i (Rep lo hi Digit) st)
     \<Longrightarrow> \<exists>c. snd st = c @ snd st' \<and> list_all isDigit c \<and> lo \<le> length c \<and> length c \<le> hi"
proof (induction hi arbitrary: lo st)
  case 0
  then show ?case by (simp add: ways.simps(11))
next
  case (Suc hi)
  from Suc.prems(2)
  consider st1 where "st1 \<in> set (ways i Digit st)" "st' \<in> set (ways i (Rep (lo - 1) hi Digit) st1)"
    | "lo = 0" "st' = st"
    by (auto simp: ways.simps(11) [of i lo "Suc hi" Digit st] split: if_splits)
  then show ?case
  proof cases
    case 1
    from 1(1) obtain c where c: "isDigit c" "snd st = c # snd st1"
      using step1_elem [of st1 isDigit st] by (auto simp: ways.simps(3))
    from Suc.prems(1) have "lo - 1 \<le> hi" by simp
    from Suc.IH [OF this 1(2)] obtain cs where
      cs: "snd st1 = cs @ snd st'" "list_all isDigit cs" "lo - 1 \<le> length cs" "length cs \<le> hi"
      by blast
    from c cs have "snd st = (c # cs) @ snd st' \<and> list_all isDigit (c # cs)
        \<and> lo \<le> length (c # cs) \<and> length (c # cs) \<le> Suc hi"
      by auto
    then show ?thesis by blast
  next
    case 2
    then show ?thesis by simp
  qed
qed

lemma ways_digitToken:
  "st' \<in> set (ways i (digitToken lo) st) \<Longrightarrow> st' \<in> set (ways i (Rep lo 16 Digit) st)"
  by (auto simp: digitToken_def ways.simps(7) ways.simps(6) split: if_splits)

lemma taken_digits:
  assumes "lo \<le> hi" and "st' \<in> set (ways i (Rep lo hi Digit) (p, text))"
  shows "digitString lo hi (take (length text - length (snd st')) text)"
proof -
  from ways_Rep_Digit [OF assms] obtain c where
    "text = c @ snd st'" "list_all isDigit c" "lo \<le> length c" "length c \<le> hi"
    by auto
  then show ?thesis by (simp add: digitString_def)
qed

lemma matchAll_from_digitToken:
  "lo \<le> 16 \<Longrightarrow> m \<in> set (matchAll_from i (digitToken lo) cur) \<Longrightarrow> digitString lo 16 m"
proof (induction i "digitToken lo" cur rule: matchAll_from.induct)
  case (1 i p)
  then obtain st' others where w: "ways i (digitToken lo) (p, []) = st' # others" and "m = []"
    by (cases "ways i (digitToken lo) (p, [])") auto
  then have "st' \<in> set (ways i (Rep lo 16 Digit) (p, []))"
    using ways_digitToken [of st' i lo "(p, [])"] by simp
  from taken_digits [OF "1.prems"(1) this] \<open>m = []\<close> show ?case by simp
next
  case (2 i p c cs)
  show ?case
  proof (cases "ways i (digitToken lo) (p, c # cs)")
    case Nil
    with "2.prems" "2.hyps"(1) show ?thesis by simp
  next
    case (Cons st' others)
    then have "st' \<in> set (ways i (Rep lo 16 Digit) (p, c # cs))"
      using ways_digitToken [of st' i lo "(p, c # cs)"] by simp
    from taken_digits [OF "2.prems"(1) this]
    have here: "digitString lo 16 (take (length (c # cs) - length (snd st')) (c # cs))" .
    show ?thesis
    proof (cases "length (snd st') < length (c # cs)")
      case True
      with Cons "2.prems" consider "m = take (length (c # cs) - length (snd st')) (c # cs)"
        | "m \<in> set (matchAll_from i (digitToken lo) st')"
        by auto
      then show ?thesis
      proof cases
        case 1
        with here show ?thesis by simp
      next
        case 2
        from "2.hyps"(2) [OF Cons True "2.prems"(1) this] show ?thesis .
      qed
    next
      case False
      with here have "lo = 0" by (simp add: digitString_def)
      from False Cons "2.prems" consider "m = []" | "m \<in> set (matchAll_from i (digitToken lo) (Some c, cs))"
        by auto
      then show ?thesis
      proof cases
        case 1
        with \<open>lo = 0\<close> show ?thesis by (simp add: digitString_def)
      next
        case 2
        from "2.hyps"(3) [OF Cons False "2.prems"(1) this] show ?thesis .
      qed
    qed
  qed
qed

lemma matchFirst_from_digitRun:
  "matchFirst_from i digitRun cur = Some num \<Longrightarrow> digitString 10 16 num"
proof (induction i digitRun cur rule: matchFirst_from.induct)
  case (1 i p)
  then obtain st' others where w: "ways i digitRun (p, []) = st' # others" and "num = []"
    by (cases "ways i digitRun (p, [])") auto
  then have "st' \<in> set (ways i (Rep 10 16 Digit) (p, []))" by (simp add: digitRun_def)
  from taken_digits [OF _ this] \<open>num = []\<close> show ?case by simp
next
  case (2 i p c cs)
  show ?case
  proof (cases "ways i digitRun (p, c # cs)")
    case Nil
    with "2.prems" "2.hyps" show ?thesis by simp
  next
    case (Cons st' others)
    then have "st' \<in> set (ways i (Rep 10 16 Digit) (p, c # cs))" by (simp add: digitRun_def)
    from taken_digits [OF _ this] Cons "2.prems" show ?thesis by simp
  qed
qed

lemma isVisibleOrFalse_True:
  "isVisibleOrFalse d x t s = (True, s')
     \<Longrightarrow> pw_isVisible d x (Some t) (fst s) = (Inr True, fst s')"
  by (auto simp: isVisibleOrFalse_def call_def split: prod.splits sum.splits)

lemma call_value:
  "call a f s = (r, s') \<Longrightarrow> f (fst s) = (r, fst s')"
  by (auto simp: call_def split: prod.splits)

lemma labelLoop_Some:
  "labelLoop d selectors s = (Some num, s')
     \<Longrightarrow> isLikelyVA num
         \<and> (\<exists>sel w w1 w2 text.
               sel \<in> set selectors
               \<and> pw_isVisible d (Loc (First (Locator sel))) (Some 500) w = (Inr True, w1)
               \<and> pw_textContent d (Loc (First (Locator sel))) w1 = (Inr (Some text), w2)
               \<and> num \<in> set (matchAll False (digitToken 10) text))"
proof (induction selectors arbitrary: s)
  case Nil
  then show ?case by simp
next
  case (Cons sel rest)
  let ?el = "Loc (First (Locator sel)) :: 'b target"
  have later: ?case if "labelLoop d rest s1 = (Some num, s')" for s1
    using Cons.IH [OF that] by (metis list.set_intros(2))
  obtain v s1 where c1: "isVisibleOrFalse d ?el 500 s = (v, s1)"
    by (cases "isVisibleOrFalse d ?el 500 s")
  show ?case
  proof (cases v)
    case False
    with Cons.prems c1 have "labelLoop d rest s1 = (Some num, s')" by simp
    then show ?thesis by (rule later)
  next
    case True
    obtain q s2 where c2: "call (TextContent ?el) (pw_textContent d ?el) s1 = (q, s2)"
      by (cases "call (TextContent ?el) (pw_textContent d ?el) s1")
    show ?thesis
    proof (cases "\<exists>content. q = Inr (Some content)")
      case False
      then have "labelLoop d rest s2 = (Some num, s')"
        using True Cons.prems c1 c2 by (cases q) (auto split: option.splits)
      then show ?thesis by (rule later)
    next
      case hasText: True
      then obtain content where q: "q = Inr (Some content)" by blast
      show ?thesis
      proof (cases "find isLikelyVA (matchAll False (digitToken 10) content)")
        case None
        with q True Cons.prems c1 c2 have "labelLoop d rest s2 = (Some num, s')" by simp
        then show ?thesis by (rule later)
      next
        case (Some found)
        with q True Cons.prems c1 c2 have "found = num" by simp
        with Some have "isLikelyVA num" "num \<in> set (matchAll False (digitToken 10) content)"
          by (auto simp: find_Some_iff)
        moreover from c1 True have "pw_isVisible d ?el (Some 500) (fst s) = (Inr True, fst s1)"
          by (simp add: isVisibleOrFalse_True)
        moreover from c2 q have "pw_textContent d ?el (fst s1) = (Inr (Some content), fst s2)"
          by (simp add: call_value)
        moreover have "sel \<in> set (sel # rest)" by simp
        ultimately show ?thesis by blast
      qed
    qed
  qed
qed

lemma containerLoop_Some:
  "containerLoop d indices s = (Some num, s') \<Longrightarrow> isLikelyVA num \<and> fromContainer d num"
proof (induction indices arbitrary: s)
  case Nil
  then show ?case by simp
next
  case (Cons i rest)
  let ?el = "Loc (Nth visibleContainers i) :: 'b target"
  obtain q s1 where c1: "call (TextContent ?el) (pw_textContent d ?el) s = (q, s1)"
    by (cases "call (TextContent ?el) (pw_textContent d ?el) s")
  show ?case
  proof (cases "\<exists>content. q = Inr (Some content)")
    case False
    then have "containerLoop d rest s1 = (Some num, s')"
      using Cons.prems c1 by (cases q) (auto split: option.splits)
    then show ?thesis by (rule Cons.IH)
  next
    case True
    then obtain content where q: "q = Inr (Some content)" by blast
    let ?kw = "includes_js (toLowerCase content) ''virtual account''
             \<or> includes_js (toLowerCase content) ''va ''
             \<or> includes_js (toLowerCase content) ''bca''
             \<or> includes_js (toLowerCase content) ''pembayaran''"
    show ?thesis
    proof (cases "?kw \<and> find isLikelyVA (matchAll False (digitToken 12) content) \<noteq> None")
      case False
      then have "containerLoop d rest s1 = (Some num, s')"
        using q Cons.prems c1 by (auto split: option.splits if_splits)
      then show ?thesis by (rule Cons.IH)
    next
      case kw: True
      then obtain found where f: "find isLikelyVA (matchAll False (digitToken 12) content) = Some found"
        by auto
      with kw q Cons.prems c1 have "found = num" by (auto split: if_splits)
      with f have "isLikelyVA num" "num \<in> set (matchAll False (digitToken 12) content)"
        by (auto simp: find_Some_iff)
      moreover from c1 q have "pw_textContent d ?el (fst s) = (Inr (Some content), fst s1)"
        by (simp add: call_value)
      ultimately show ?thesis using kw unfolding fromContainer_def by blast
    qed
  qed
qed

lemma contextLoop_Some:
  "contextLoop matches = Some num
     \<Longrightarrow> isLikelyVA num \<and> (\<exists>match \<in> set matches. matchFirst False digitRun match = Some num)"
  by (induction matches) (auto split: option.splits if_splits)

lemma bodyTextStep_Some:
  assumes "bodyTextStep d s = (Inr (Some num), s')"
  shows "isLikelyVA num \<and> fromBody d num"
proof -
  let ?s0 = "logger Info [S ''Searching in body text with strict filtering...''] s"
  obtain q s1 where c: "call ReadDocument (pw_document d) ?s0 = (q, s1)"
    by (cases "call ReadDocument (pw_document d) ?s0")
  with assms obtain body where q: "q = Inr body"
    by (cases q) (auto simp: bodyTextStep_def andThen_def)
  with assms c have "contextLoop (matchAll True vaContextPattern (visibleTextOf body)) = Some num"
    by (auto simp: bodyTextStep_def andThen_def split: option.splits)
  from contextLoop_Some [OF this] obtain match where
    "isLikelyVA num" "match \<in> set (matchAll True vaContextPattern (visibleTextOf body))"
    "matchFirst False digitRun match = Some num"
    by blast
  moreover from c q have "pw_document d (fst ?s0) = (Inr body, fst s1)"
    by (simp add: call_value)
  ultimately show ?thesis unfolding fromBody_def by blast
qed

lemma containerStep_Some:
  assumes "containerStep d s = (Inr (Some num), s')"
  shows "isLikelyVA num \<and> fromContainer d num"
proof -
  let ?s0 = "logger Info [S ''Looking for VA in visible containers...''] s"
  obtain q s1 where c: "call (All visibleContainers) (pw_allOf d visibleContainers) ?s0 = (q, s1)"
    by (cases "call (All visibleContainers) (pw_allOf d visibleContainers) ?s0")
  with assms obtain n where q: "q = Inr n"
    by (cases q) (auto simp: containerStep_def andThen_def)
  with assms c have "fst (containerLoop d [0..<n] s1) = Some num"
    by (auto simp: containerStep_def andThen_def split: prod.splits)
  then obtain s2 where "containerLoop d [0..<n] s1 = (Some num, s2)"
    by (cases "containerLoop d [0..<n] s1") auto
  then show ?thesis by (rule containerLoop_Some)
qed

lemma extractVA_Some:
  assumes "fst (extractVA d s) = Some num"
  shows "isLikelyVA num \<and> (fromLabel d num \<or> fromContainer d num \<or> fromBody d num)"
proof -
  obtain r1 s1 where l: "labelLoop d vaLabelSelectors s = (r1, s1)"
    by (cases "labelLoop d vaLabelSelectors s")
  show ?thesis
  proof (cases r1)
    case (Some found)
    with assms l have "found = num" by (simp add: extractVA_def)
    with Some l labelLoop_Some [of d vaLabelSelectors s num s1] show ?thesis
      unfolding fromLabel_def by blast
  next
    case None
    obtain r2 s2 where c: "containerStep d s1 = (r2, s2)"
      by (cases "containerStep d s1")
    show ?thesis
    proof (cases r2)
      case (Inl e)
      with None assms l c show ?thesis by (simp add: extractVA_def)
    next
      case (Inr v2)
      show ?thesis
      proof (cases v2)
        case (Some found)
        with Inr None assms l c have "found = num" by (simp add: extractVA_def)
        with Some Inr c containerStep_Some [of d s1 num s2] show ?thesis by simp
      next
        case none2: None
        obtain r3 s3 where b: "bodyTextStep d s2 = (r3, s3)"
          by (cases "bodyTextStep d s2")
        show ?thesis
        proof (cases r3)
          case (Inl e)
          with none2 Inr None assms l c b show ?thesis by (simp add: extractVA_def)
        next
          case v3: (Inr v3)
          with none2 Inr None assms l c b have "v3 = Some num" by (simp add: extractVA_def)
          with v3 b bodyTextStep_Some [of d s2 num s3] show ?thesis by simp
        qed
      qed
    qed
  qed
qed

lemma isLikelyVA_iff:
  "isLikelyVA num \<longleftrightarrow>
     num \<notin> set TRACKING_IDS \<and> \<not> startsWith num ''62'' \<and> \<not> startsWith num ''08''
     \<and> \<not> startsWith num ''021''"
  unfolding isLikelyVA_def isTrackingId_def by (cases "num \<in> set TRACKING_IDS") simp_all

lemma digitString_weaken: "digitString 12 16 num \<Longrightarrow> digitString 10 16 num"
  by (simp add: digitString_def)

lemma extractVA_result:
  assumes "fst (extractVA d s) = Some num"
  shows "digitString 10 16 num
         \<and> num \<notin> set TRACKING_IDS \<and> \<not> startsWith num ''62'' \<and> \<not> startsWith num ''08''
         \<and> \<not> startsWith num ''021''
         \<and> (fromLabel d num \<or> fromContainer d num \<or> fromBody d num)"
proof -
  from extractVA_Some [OF assms]
  have ok: "isLikelyVA num" and src: "fromLabel d num \<or> fromContainer d num \<or> fromBody d num"
    by simp_all
  from src have "digitString 10 16 num"
  proof (elim disjE)
    assume "fromLabel d num"
    then show ?thesis
      unfolding fromLabel_def matchAll_def
      using matchAll_from_digitToken [of 10 num False] by auto
  next
    assume "fromContainer d num"
    then show ?thesis
      unfolding fromContainer_def matchAll_def
      using matchAll_from_digitToken [of 12 num False] digitString_weaken by auto
  next
    assume "fromBody d num"
    then show ?thesis
      unfolding fromBody_def matchFirst_def
      using matchFirst_from_digitRun by blast
  qed
  with ok src show ?thesis by (simp add: isLikelyVA_iff)
qed

lemma labelLoop_hiddenDemo: "fst (labelLoop hiddenDemo selectors s) = None"
  by (induction selectors arbitrary: s)
     (simp_all add: hiddenDemo_def idle_def isVisibleOrFalse_def call_def)

lemma containerStep_hiddenDemo: "fst (containerStep hiddenDemo s) = Inr None"
  by (simp add: containerStep_def hiddenDemo_def idle_def call_def andThen_def logger_def)

lemma visibleTextOf_hiddenBody:
  "visibleTextOf hiddenBody = ''Pilih metode pembayaran Virtual Account 39012345678901 ''"
  by code_simp

lemma matchAll_hiddenBody:
  "matchAll True vaContextPattern ''Pilih metode pembayaran Virtual Account 39012345678901 ''
     = [''Virtual Account 39012345678901'']"
  by code_simp

lemma contextLoop_hiddenBody:
  "contextLoop (matchAll True vaContextPattern (visibleTextOf hiddenBody)) = Some ''39012345678901''"
proof -
  have "contextLoop [''Virtual Account 39012345678901''] = Some ''39012345678901''"
    by code_simp
  then show ?thesis by (simp only: visibleTextOf_hiddenBody matchAll_hiddenBody)
qed

lemma bodyTextStep_hiddenDemo:
  "bodyTextStep hiddenDemo s =
     (Inr (Some ''39012345678901''),
      (Suc (fst s),
       snd s @ [Log Info [S ''Searching in body text with strict filtering...''], ReadDocument,
                Log Info [S ''Found VA near keyword: '', S ''39012345678901'']]))"
  by (simp add: bodyTextStep_def hiddenDemo_def idle_def call_def andThen_def logger_def
        contextLoop_hiddenBody)

text \<open>
  On the page \<open>vaDemo\<close> the script, the paragraph that is not displayed and the excluded
  identifier after a keyword are passed over, and the number after ``Virtual Account'' is
  returned.
\<close>

lemma visibleTextOf_vaBody:
  "visibleTextOf vaBody = ''Nomor VA: 1234567890123456 Virtual Account 39012345678901 ''"
  by code_simp

lemma matchAll_vaBody:
  "matchAll True vaContextPattern ''Nomor VA: 1234567890123456 Virtual Account 39012345678901 ''
     = [''Nomor VA: 1234567890123456'', ''Virtual Account 39012345678901'']"
  by code_simp

lemma contextLoop_vaBody:
  "contextLoop (matchAll True vaContextPattern (visibleTextOf vaBody)) = Some ''39012345678901''"
proof -
  have "contextLoop [''Nomor VA: 1234567890123456'', ''Virtual Account 39012345678901'']
          = Some ''39012345678901''"
    by code_simp
  then show ?thesis by (simp only: visibleTextOf_vaBody matchAll_vaBody)
qed

lemma extractVA_vaDemo: "fst (extractVA vaDemo s) = Some ''39012345678901''"
proof -
  have "fst (labelLoop vaDemo selectors s0) = None" for selectors s0
    by (induction selectors arbitrary: s0)
       (simp_all add: vaDemo_def idle_def isVisibleOrFalse_def call_def)
  then obtain s1 where l: "labelLoop vaDemo vaLabelSelectors s = (None, s1)"
    by (cases "labelLoop vaDemo vaLabelSelectors s") (metis fst_conv)
  have "fst (containerStep vaDemo s1) = Inr None"
    by (simp add: containerStep_def vaDemo_def idle_def call_def andThen_def logger_def)
  then obtain s2 where c: "containerStep vaDemo s1 = (Inr None, s2)"
    by (cases "containerStep vaDemo s1") auto
  have "fst (bodyTextStep vaDemo s2) = Inr (Some ''39012345678901'')"
    by (simp add: bodyTextStep_def vaDemo_def idle_def call_def andThen_def logger_def
          contextLoop_vaBody)
  then obtain s3 where b: "bodyTextStep vaDemo s2 = (Inr (Some ''39012345678901''), s3)"
    by (cases "bodyTextStep vaDemo s2") auto
  from l c b show ?thesis by (simp add: extractVA_def)
qed

text \<open>
  C6. The claim does not hold of the text that the extraction reads: the walker of step 3
  looks at the parent element of a text node only, and the computed \<^verbatim>\<open>display\<close> of an
  element inside a subtree that is not displayed is its own. On the page \<open>hiddenDemo\<close> the
  only number stands in a dialog that is not displayed, in \<open>span\<close> elements: the rendered
  text of the page is the heading alone, the text that the walker collects holds the
  dialog, and the number of the dialog is returned as the VA number.
\<close>

theorem extractVA_reads_undisplayed_text:
  "renderedTextOf hiddenBody = ''Pilih metode pembayaran ''
   \<and> visibleTextOf hiddenBody = ''Pilih metode pembayaran Virtual Account 39012345678901 ''
   \<and> fst (extractVA hiddenDemo (0, [])) = Some ''39012345678901''
   \<and> last (snd (snd (extractVA hiddenDemo (0, []))))
       = Log Info [S ''Found VA near keyword: '', S ''39012345678901'']"
proof -
  let ?s = "(0, []) :: (nat, nat) run"
  have a: "renderedTextOf hiddenBody = ''Pilih metode pembayaran ''" by code_simp
  obtain s1 where l: "labelLoop hiddenDemo vaLabelSelectors ?s = (None, s1)"
    using labelLoop_hiddenDemo [of vaLabelSelectors ?s]
    by (cases "labelLoop hiddenDemo vaLabelSelectors ?s") auto
  obtain s2 where c: "containerStep hiddenDemo s1 = (Inr None, s2)"
    using containerStep_hiddenDemo [of s1] by (cases "containerStep hiddenDemo s1") auto
  from l c have "extractVA hiddenDemo ?s = (case bodyTextStep hiddenDemo s2 of
                  (Inl e, s3) \<Rightarrow> (None, logger Warn [S ''VA extraction error: '', S (message e)] s3)
                | (Inr vaNumber, s3) \<Rightarrow> (vaNumber, s3))"
    by (simp add: extractVA_def)
  then have "fst (extractVA hiddenDemo ?s) = Some ''39012345678901''
      \<and> last (snd (snd (extractVA hiddenDemo ?s)))
           = Log Info [S ''Found VA near keyword: '', S ''39012345678901'']"
    by (simp add: bodyTextStep_hiddenDemo)
  with a visibleTextOf_hiddenBody show ?thesis by simp
qed

end
